theory Spec2Isabelle
  imports Complex_Main
begin

section \<open>Strings\<close>

text \<open>
  A string is a list of characters, each standing for one UTF-16 code unit below 256 (the
  Latin-1 range): the character with the code \<open>n\<close> is the code unit \<open>n\<close>, not a byte of
  an encoding. Strings with other code units are outside the model. On these strings
  \<^verbatim>\<open>toLowerCase\<close> maps the letters A-Z and the capital letters U+00C0 to U+00DE (without
  the multiplication sign U+00D7) to the letter 32 places further and leaves every other
  character as it is, and \<^verbatim>\<open>trim\<close> removes, at both ends, the white space and the line
  terminators of ECMAScript: U+0009 to U+000D, U+0020 and U+00A0.
\<close>

definition is_hex :: "char \<Rightarrow> bool" where
  "is_hex c \<longleftrightarrow> c \<in> set ''0123456789abcdefABCDEF''"

definition hex_run :: "nat \<Rightarrow> nat \<Rightarrow> string \<Rightarrow> bool" where
  "hex_run i n s \<longleftrightarrow> list_all is_hex (take n (drop i s))"

definition capitals :: string where
  "capitals =
     ''ABCDEFGHIJKLMNOPQRSTUVWXYZ'' @
     [CHR 0xC0, CHR 0xC1, CHR 0xC2, CHR 0xC3, CHR 0xC4, CHR 0xC5, CHR 0xC6, CHR 0xC7,
      CHR 0xC8, CHR 0xC9, CHR 0xCA, CHR 0xCB, CHR 0xCC, CHR 0xCD, CHR 0xCE, CHR 0xCF,
      CHR 0xD0, CHR 0xD1, CHR 0xD2, CHR 0xD3, CHR 0xD4, CHR 0xD5, CHR 0xD6, CHR 0xD8,
      CHR 0xD9, CHR 0xDA, CHR 0xDB, CHR 0xDC, CHR 0xDD, CHR 0xDE]"

definition smalls :: string where
  "smalls =
     ''abcdefghijklmnopqrstuvwxyz'' @
     [CHR 0xE0, CHR 0xE1, CHR 0xE2, CHR 0xE3, CHR 0xE4, CHR 0xE5, CHR 0xE6, CHR 0xE7,
      CHR 0xE8, CHR 0xE9, CHR 0xEA, CHR 0xEB, CHR 0xEC, CHR 0xED, CHR 0xEE, CHR 0xEF,
      CHR 0xF0, CHR 0xF1, CHR 0xF2, CHR 0xF3, CHR 0xF4, CHR 0xF5, CHR 0xF6, CHR 0xF8,
      CHR 0xF9, CHR 0xFA, CHR 0xFB, CHR 0xFC, CHR 0xFD, CHR 0xFE]"

definition lower_char :: "char \<Rightarrow> char" where
  "lower_char c = (case map_of (zip capitals smalls) c of Some l \<Rightarrow> l | None \<Rightarrow> c)"

definition toLowerCase :: "string \<Rightarrow> string" where
  "toLowerCase s = map lower_char s"

definition is_space :: "char \<Rightarrow> bool" where
  "is_space c \<longleftrightarrow> c \<in> {CHR 0x09, CHR 0x0A, CHR 0x0B, CHR 0x0C, CHR 0x0D, CHR 0x20, CHR 0xA0}"

definition trim :: "string \<Rightarrow> string" where
  "trim s = rev (dropWhile is_space (rev (dropWhile is_space s)))"

text \<open>\<^verbatim>\<open>s.replace(/\/$/, "")\<close>: one slash at the very end of the string is removed.\<close>

definition strip_slash :: "string \<Rightarrow> string" where
  "strip_slash s = (if s \<noteq> [] \<and> last s = CHR ''/'' then butlast s else s)"

text \<open>
  An optional property of an object: the key is absent, or it is present and holds
  \<^verbatim>\<open>undefined\<close>, \<^verbatim>\<open>null\<close> or a value. Reading an absent key gives \<^verbatim>\<open>undefined\<close>; a spread
  copies every key that is present, whatever it holds.
\<close>

datatype 'a optional = Absent | Undefined | Null | Value 'a

definition reading :: "'a optional \<Rightarrow> 'a optional" where
  "reading p = (case p of Absent \<Rightarrow> Undefined | _ \<Rightarrow> p)"

text \<open>The string read from a property; \<open>None\<close> when the read gives \<^verbatim>\<open>undefined\<close> or \<^verbatim>\<open>null\<close>.\<close>

definition str_of :: "string optional \<Rightarrow> string option" where
  "str_of p = (case p of Value v \<Rightarrow> Some v | _ \<Rightarrow> None)"

text \<open>A column of a stored row, \<^verbatim>\<open>null\<close> or a string, as the value of a property.\<close>

definition of_column :: "string option \<Rightarrow> string optional" where
  "of_column x = (case x of None \<Rightarrow> Null | Some v \<Rightarrow> Value v)"

text \<open>\<^verbatim>\<open>x || d\<close> on a string read: \<^verbatim>\<open>undefined\<close>, \<^verbatim>\<open>null\<close> and the empty string are falsy.\<close>

definition truthy :: "string option \<Rightarrow> bool" where
  "truthy x = (case x of None \<Rightarrow> False | Some v \<Rightarrow> v \<noteq> [])"

definition or_null :: "string option \<Rightarrow> string option" where
  "or_null x = (if truthy x then x else None)"

section \<open>Identifier shapes\<close>

text \<open>
  favoriteService.ts, \<^verbatim>\<open>isValidUUID\<close>: the regular expression
  \<^verbatim>\<open>/^[0-9a-fA-F]{8}-[0-9a-fA-F]{4}-[0-9a-fA-F]{4}-[0-9a-fA-F]{4}-[0-9a-fA-F]{12}$/\<close>,
  after the test \<^verbatim>\<open>if (!id) return false\<close>.
\<close>

definition isValidUUID :: "string option \<Rightarrow> bool" where
  "isValidUUID x =
     (case x of
        None \<Rightarrow> False
      | Some s \<Rightarrow>
          s \<noteq> [] \<and> length s = 36 \<and>
          hex_run 0 8 s \<and> s ! 8 = CHR ''-'' \<and>
          hex_run 9 4 s \<and> s ! 13 = CHR ''-'' \<and>
          hex_run 14 4 s \<and> s ! 18 = CHR ''-'' \<and>
          hex_run 19 4 s \<and> s ! 23 = CHR ''-'' \<and>
          hex_run 24 12 s)"

text \<open>useNewsApp.ts, the test of \<^verbatim>\<open>ensureArticleSaved\<close>: \<^verbatim>\<open>/^[0-9a-fA-F-]{36}$/\<close>.\<close>

definition id_shape :: "string \<Rightarrow> bool" where
  "id_shape s \<longleftrightarrow> length s = 36 \<and> list_all (\<lambda>c. is_hex c \<or> c = CHR ''-'') s"

section \<open>Articles and rows\<close>

text \<open>
  A count as the program holds it: a number, or what a read of a plain object gives under
  a key that names a member of \<^verbatim>\<open>Object.prototype\<close>: that member, or a string made from
  it, which is not a number.
\<close>

datatype count = Count nat | Inherited string

text \<open>
  The \<^verbatim>\<open>Article\<close> type of the application, with the fields the modelled functions read
  or write. The fields \<^verbatim>\<open>id\<close>, \<^verbatim>\<open>imageUrl\<close> and \<^verbatim>\<open>audioBase64\<close> are optional properties;
  the other fields, the two counts among them, are present in every article.
\<close>

record article =
  a_id :: "string optional"
  url :: string
  title :: string
  summary :: string
  source :: string
  date :: string
  category :: string
  imageUrl :: "string optional"
  audioBase64 :: "string optional"
  sentimentScore :: real
  likeCount :: count
  dislikeCount :: count

text \<open>A row of the relation \<^verbatim>\<open>articles\<close>, with the columns \<^verbatim>\<open>saveArticles\<close> writes.\<close>

record article_row =
  row_id :: string
  row_url :: string
  row_category :: string
  row_title :: string
  row_summary :: string
  row_source :: string
  published_date :: string
  sentiment_score :: real
  image_url :: "string option"
  audio_base64 :: "string option"

text \<open>A row of \<^verbatim>\<open>likes\<close>, \<^verbatim>\<open>dislikes\<close> or \<^verbatim>\<open>favorites\<close>.\<close>

record vote_row =
  vote_id :: nat
  article_id :: string
  user_id :: string

record comment_row =
  comment_id :: string
  comment_article :: string
  comment_user :: string
  username :: string
  comment_text :: string
  created_at :: nat

record user =
  u_id :: string
  u_name :: string
  avatar :: string

section \<open>The persistent store\<close>

text \<open>
  Modelled from the spec: the store client (\<^verbatim>\<open>supabase\<close>, imported from
  supabaseClient) and the schema of the five relations are not among the sources. Section 6
  of the specification gives the relations and their keys: articles (unique on url),
  favorites, likes and dislikes (composite unique on article and user), comments (unique
  id). A call is answered in one of the three ways the source handles: with data
  (\<open>Ok\<close>), with an error object and no data (\<open>Err\<close>, the \<^verbatim>\<open>if (error)\<close> branches), or by
  throwing (\<open>Throw\<close>, the \<^verbatim>\<open>catch\<close> blocks). The field \<open>pending\<close> lists how the coming
  calls are answered, one entry per call, \<open>Ok\<close> once the list is used up; a call that is
  not answered with data changes no relation. The field \<open>trace\<close> records every request
  sent, in order. New article rows get their ids from \<open>assign_id\<close>, numbered by \<open>serial\<close>.
\<close>

datatype outcome = Ok | Err | Throw

datatype err = Conflict | Unavailable

datatype 'a reply = Data 'a | Error err | Thrown

datatype 'a result = Returned 'a | Raised

datatype table = Likes | Dislikes | Favorites

datatype request =
    DeletePair table string string
  | SelectPair table string string
  | DeleteById table nat
  | InsertPair table string string
  | CountFor table string
  | SelectIn table "string list"
  | SelectArticleByUrl string
  | UpsertArticle article_row
  | DeleteCommentBy string string

record store =
  article_rows :: "string \<rightharpoonup> article_row"
  likes :: "vote_row list"
  dislikes :: "vote_row list"
  favorites :: "vote_row list"
  comments :: "comment_row list"
  assign_id :: "nat \<Rightarrow> string"
  serial :: nat
  pending :: "outcome list"
  trace :: "request list"

definition rows :: "table \<Rightarrow> store \<Rightarrow> vote_row list" where
  "rows t s = (case t of Likes \<Rightarrow> likes s | Dislikes \<Rightarrow> dislikes s | Favorites \<Rightarrow> favorites s)"

definition set_rows :: "table \<Rightarrow> vote_row list \<Rightarrow> store \<Rightarrow> store" where
  "set_rows t rs s =
     (case t of
        Likes \<Rightarrow> s\<lparr>likes := rs\<rparr>
      | Dislikes \<Rightarrow> s\<lparr>dislikes := rs\<rparr>
      | Favorites \<Rightarrow> s\<lparr>favorites := rs\<rparr>)"

text \<open>
  Modelled from the spec: the transport of the store client, which is not among the
  sources. Sending a request: the next pending answer is the one it gets, the request is
  recorded and the answer is used up.
\<close>

definition answer :: "store \<Rightarrow> outcome" where
  "answer s = (case pending s of [] \<Rightarrow> Ok | x # _ \<Rightarrow> x)"

definition advance :: "request \<Rightarrow> store \<Rightarrow> store" where
  "advance req s = s\<lparr>pending := tl (pending s), trace := trace s @ [req]\<rparr>"

definition call :: "request \<Rightarrow> store \<Rightarrow> outcome \<times> store" where
  "call req s = (answer s, advance req s)"

definition of_pair :: "string \<Rightarrow> string \<Rightarrow> vote_row \<Rightarrow> bool" where
  "of_pair a u r \<longleftrightarrow> article_id r = a \<and> user_id r = u"

text \<open>
  Modelled from the spec: the key the store gives to a new row of likes, dislikes or
  favorites (the schema is not among the sources): one more than every id in the relation.
\<close>

definition fresh_id :: "vote_row list \<Rightarrow> nat" where
  "fresh_id rs = Suc (foldr max (map vote_id rs) 0)"

text \<open>
  Modelled from the spec: what the store client, not among the sources, does with
  \<^verbatim>\<open>from(t).delete().eq('article_id', a).eq('user_id', u)\<close>.
\<close>

definition delete_pair :: "table \<Rightarrow> string \<Rightarrow> string \<Rightarrow> store \<Rightarrow> unit reply \<times> store" where
  "delete_pair t a u s =
     (case call (DeletePair t a u) s of
        (Ok, s1) \<Rightarrow> (Data (), set_rows t (filter (\<lambda>r. \<not> of_pair a u r) (rows t s1)) s1)
      | (Err, s1) \<Rightarrow> (Error Unavailable, s1)
      | (Throw, s1) \<Rightarrow> (Thrown, s1))"

text \<open>
  Modelled from the spec: what the store client, not among the sources, does with
  \<^verbatim>\<open>from(t).select('id').eq('article_id', a).eq('user_id', u).maybeSingle()\<close>: no row is
  data \<^verbatim>\<open>null\<close>, one row is that row, several rows are an error.
\<close>

definition select_pair ::
  "table \<Rightarrow> string \<Rightarrow> string \<Rightarrow> store \<Rightarrow> vote_row option reply \<times> store" where
  "select_pair t a u s =
     (case call (SelectPair t a u) s of
        (Ok, s1) \<Rightarrow>
          (case filter (of_pair a u) (rows t s1) of
             [] \<Rightarrow> (Data None, s1)
           | [r] \<Rightarrow> (Data (Some r), s1)
           | _ \<Rightarrow> (Error Unavailable, s1))
      | (Err, s1) \<Rightarrow> (Error Unavailable, s1)
      | (Throw, s1) \<Rightarrow> (Thrown, s1))"

text \<open>
  Modelled from the spec: what the store client, not among the sources, does with
  \<^verbatim>\<open>from(t).delete().eq('id', i)\<close>.
\<close>

definition delete_by_id :: "table \<Rightarrow> nat \<Rightarrow> store \<Rightarrow> unit reply \<times> store" where
  "delete_by_id t i s =
     (case call (DeleteById t i) s of
        (Ok, s1) \<Rightarrow> (Data (), set_rows t (filter (\<lambda>r. vote_id r \<noteq> i) (rows t s1)) s1)
      | (Err, s1) \<Rightarrow> (Error Unavailable, s1)
      | (Throw, s1) \<Rightarrow> (Thrown, s1))"

text \<open>
  Modelled from the spec: what the store client, not among the sources, does with
  \<^verbatim>\<open>from(t).insert([{ article_id: a, user_id: u }])\<close>: the pair is unique in the relation
  (section 6), a second row for it is refused with the conflict code 23505.
\<close>

definition insert_pair :: "table \<Rightarrow> string \<Rightarrow> string \<Rightarrow> store \<Rightarrow> unit reply \<times> store" where
  "insert_pair t a u s =
     (case call (InsertPair t a u) s of
        (Ok, s1) \<Rightarrow>
          (if list_ex (of_pair a u) (rows t s1) then (Error Conflict, s1)
           else (Data (),
                 set_rows t
                   (rows t s1 @ [\<lparr>vote_id = fresh_id (rows t s1), article_id = a, user_id = u\<rparr>])
                   s1))
      | (Err, s1) \<Rightarrow> (Error Unavailable, s1)
      | (Throw, s1) \<Rightarrow> (Thrown, s1))"

text \<open>
  Modelled from the spec: what the store client, not among the sources, does with
  \<^verbatim>\<open>from(t).select('*', { count: 'exact', head: true }).eq('article_id', a)\<close>.
\<close>

definition count_for :: "table \<Rightarrow> string \<Rightarrow> store \<Rightarrow> nat reply \<times> store" where
  "count_for t a s =
     (case call (CountFor t a) s of
        (Ok, s1) \<Rightarrow> (Data (length (filter (\<lambda>r. article_id r = a) (rows t s1))), s1)
      | (Err, s1) \<Rightarrow> (Error Unavailable, s1)
      | (Throw, s1) \<Rightarrow> (Thrown, s1))"

section \<open>Votes (favoriteService.ts)\<close>

definition toggleLike :: "string \<Rightarrow> string \<Rightarrow> store \<Rightarrow> bool result \<times> store" where
  "toggleLike articleId userId s =
     (if \<not> isValidUUID (Some articleId) then (Returned False, s)
      else
        (case delete_pair Dislikes articleId userId s of
           (Thrown, s1) \<Rightarrow> (Raised, s1)
         | (_, s1) \<Rightarrow>
             (case select_pair Likes articleId userId s1 of
                (Thrown, s2) \<Rightarrow> (Raised, s2)
              | (Data (Some existingLike), s2) \<Rightarrow>
                  (case delete_by_id Likes (vote_id existingLike) s2 of
                     (Thrown, s3) \<Rightarrow> (Raised, s3)
                   | (_, s3) \<Rightarrow> (Returned False, s3))
              | (_, s2) \<Rightarrow>
                  (case insert_pair Likes articleId userId s2 of
                     (Thrown, s3) \<Rightarrow> (Raised, s3)
                   | (_, s3) \<Rightarrow> (Returned True, s3)))))"

definition toggleDislike :: "string \<Rightarrow> string \<Rightarrow> store \<Rightarrow> bool result \<times> store" where
  "toggleDislike articleId userId s =
     (if \<not> isValidUUID (Some articleId) then (Returned False, s)
      else
        (case delete_pair Likes articleId userId s of
           (Thrown, s1) \<Rightarrow> (Raised, s1)
         | (_, s1) \<Rightarrow>
             (case select_pair Dislikes articleId userId s1 of
                (Thrown, s2) \<Rightarrow> (Raised, s2)
              | (Data (Some existingDislike), s2) \<Rightarrow>
                  (case delete_by_id Dislikes (vote_id existingDislike) s2 of
                     (Thrown, s3) \<Rightarrow> (Raised, s3)
                   | (_, s3) \<Rightarrow> (Returned False, s3))
              | (_, s2) \<Rightarrow>
                  (case insert_pair Dislikes articleId userId s2 of
                     (Thrown, s3) \<Rightarrow> (Raised, s3)
                   | (_, s3) \<Rightarrow> (Returned True, s3)))))"

text \<open>\<^verbatim>\<open>return count || 0\<close>: an answer without a count reads as 0.\<close>

definition getLikeCount :: "string \<Rightarrow> store \<Rightarrow> nat result \<times> store" where
  "getLikeCount articleId s =
     (if \<not> isValidUUID (Some articleId) then (Returned 0, s)
      else
        (case count_for Likes articleId s of
           (Thrown, s1) \<Rightarrow> (Raised, s1)
         | (Data n, s1) \<Rightarrow> (Returned n, s1)
         | (Error e, s1) \<Rightarrow> (Returned 0, s1)))"

definition getDislikeCount :: "string \<Rightarrow> store \<Rightarrow> nat result \<times> store" where
  "getDislikeCount articleId s =
     (if \<not> isValidUUID (Some articleId) then (Returned 0, s)
      else
        (case count_for Dislikes articleId s of
           (Thrown, s1) \<Rightarrow> (Raised, s1)
         | (Data n, s1) \<Rightarrow> (Returned n, s1)
         | (Error e, s1) \<Rightarrow> (Returned 0, s1)))"

text \<open>The sequence of toggles of one session, each awaited before the next starts.\<close>

datatype vote_op = Like string string | Dislike string string

fun run_op :: "vote_op \<Rightarrow> store \<Rightarrow> store" where
  "run_op (Like a u) s = snd (toggleLike a u s)"
| "run_op (Dislike a u) s = snd (toggleDislike a u s)"

fun run_ops :: "vote_op list \<Rightarrow> store \<Rightarrow> store" where
  "run_ops [] s = s"
| "run_ops (x # xs) s = run_ops xs (run_op x s)"

definition has_like :: "store \<Rightarrow> string \<Rightarrow> string \<Rightarrow> bool" where
  "has_like s a u \<longleftrightarrow> list_ex (of_pair a u) (likes s)"

definition has_dislike :: "store \<Rightarrow> string \<Rightarrow> string \<Rightarrow> bool" where
  "has_dislike s a u \<longleftrightarrow> list_ex (of_pair a u) (dislikes s)"

text \<open>Every call still to come is answered with data.\<close>

definition serving :: "store \<Rightarrow> bool" where
  "serving s \<longleftrightarrow> list_all (\<lambda>x. x = Ok) (pending s)"

section \<open>Favorites (favoriteService.ts)\<close>

text \<open>\<^verbatim>\<open>return !error || error.code === '23505'\<close>, and \<^verbatim>\<open>false\<close> from the catch block.\<close>

definition addFavorite :: "string \<Rightarrow> string \<Rightarrow> store \<Rightarrow> bool \<times> store" where
  "addFavorite articleId userId s =
     (if \<not> isValidUUID (Some articleId) \<or> userId = [] then (False, s)
      else
        (case insert_pair Favorites articleId userId s of
           (Data _, s1) \<Rightarrow> (True, s1)
         | (Error Conflict, s1) \<Rightarrow> (True, s1)
         | (Error Unavailable, s1) \<Rightarrow> (False, s1)
         | (Thrown, s1) \<Rightarrow> (False, s1)))"

definition removeFavorite :: "string \<Rightarrow> string \<Rightarrow> store \<Rightarrow> bool \<times> store" where
  "removeFavorite articleId userId s =
     (if \<not> isValidUUID (Some articleId) \<or> userId = [] then (False, s)
      else
        (case delete_pair Favorites articleId userId s of
           (Data _, s1) \<Rightarrow> (True, s1)
         | (Error e, s1) \<Rightarrow> (False, s1)
         | (Thrown, s1) \<Rightarrow> (False, s1)))"

section \<open>Comments (favoriteService.ts)\<close>

text \<open>
  Modelled from the spec: what the store client, not among the sources, does with
  \<^verbatim>\<open>from('comments').delete().eq('id', commentId).eq('user_id', userId)\<close>.
\<close>

definition delete_comment_by :: "string \<Rightarrow> string \<Rightarrow> store \<Rightarrow> unit reply \<times> store" where
  "delete_comment_by c u s =
     (case call (DeleteCommentBy c u) s of
        (Ok, s1) \<Rightarrow>
          (Data (),
           s1\<lparr>comments := filter (\<lambda>r. \<not> (comment_id r = c \<and> comment_user r = u)) (comments s1)\<rparr>)
      | (Err, s1) \<Rightarrow> (Error Unavailable, s1)
      | (Throw, s1) \<Rightarrow> (Thrown, s1))"

text \<open>The error object is logged; the function has no try block.\<close>

definition deleteComment :: "string \<Rightarrow> string \<Rightarrow> store \<Rightarrow> unit result \<times> store" where
  "deleteComment commentId userId s =
     (case delete_comment_by commentId userId s of
        (Thrown, s1) \<Rightarrow> (Raised, s1)
      | (_, s1) \<Rightarrow> (Returned (), s1))"

section \<open>Batched counts (favoriteService.ts)\<close>









section \<open>Articles (articleService.ts)\<close>

text \<open>
  The constructor \<^verbatim>\<open>new URL(url)\<close> belongs to the platform, not to the repository: it is a
  parameter \<open>P\<close> of every function that reaches it, \<open>None\<close> where it throws.
\<close>

record URL =
  hostname :: string
  pathname :: string

definition normalizeUrl :: "(string \<Rightarrow> URL option) \<Rightarrow> string \<Rightarrow> string" where
  "normalizeUrl P u =
     (case P u of
        Some parsed \<Rightarrow> toLowerCase (hostname parsed @ strip_slash (pathname parsed))
      | None \<Rightarrow> strip_slash (toLowerCase (trim u)))"

text \<open>
  What the platform's constructor answers at the strings of the examples below: host and
  path for the four absolute URLs listed; the other strings used with it are rejected:
  \<open>x.com/a\<close>, \<open>x.com/a/\<close>, the same two with a blank before the slash or at the end, and
  the empty string have no scheme, and \<open>http://a b\<close> and \<open>https://a b\<close> have a blank in
  the host. It stands for the constructor at these strings only.
\<close>

definition URL_examples :: "string \<Rightarrow> URL option" where
  "URL_examples u =
     (if u = ''https://x.com/a//'' then Some \<lparr>hostname = ''x.com'', pathname = ''/a//''\<rparr>
      else if u = ''https://x.com/a/'' then Some \<lparr>hostname = ''x.com'', pathname = ''/a/''\<rparr>
      else if u = ''https://x.com/a'' then Some \<lparr>hostname = ''x.com'', pathname = ''/a''\<rparr>
      else if u = ''http://x.com/a'' then Some \<lparr>hostname = ''x.com'', pathname = ''/a''\<rparr>
      else None)"

text \<open>
  The \<^verbatim>\<open>Map\<close> of \<^verbatim>\<open>saveArticles\<close>, in insertion order: an article with an empty url is
  skipped, and a key already present keeps its first article.
\<close>

fun uniqueInputMap ::
  "(string \<Rightarrow> URL option) \<Rightarrow> article list \<Rightarrow> (string \<times> article) list \<Rightarrow> (string \<times> article) list"
where
  "uniqueInputMap P [] m = m"
| "uniqueInputMap P (a # as) m =
     (if url a \<noteq> [] then
        (let norm = normalizeUrl P (url a) in
         if norm \<in> set (map fst m) then uniqueInputMap P as m
         else uniqueInputMap P as (m @ [(norm, a)]))
      else uniqueInputMap P as m)"

definition uniqueInput :: "(string \<Rightarrow> URL option) \<Rightarrow> article list \<Rightarrow> article list" where
  "uniqueInput P as = map snd (uniqueInputMap P as [])"

definition or_str :: "string \<Rightarrow> string \<Rightarrow> string" where
  "or_str v d = (if v = [] then d else v)"

text \<open>The object \<^verbatim>\<open>row\<close> of \<^verbatim>\<open>saveArticles\<close>; it carries no id.\<close>

definition row_of :: "string \<Rightarrow> article \<Rightarrow> article_row" where
  "row_of cleanCategory a =
     \<lparr>row_id = [],
      row_url = url a,
      row_category = or_str (category a) cleanCategory,
      row_title = title a,
      row_summary = summary a,
      row_source = source a,
      published_date = date a,
      sentiment_score = sentimentScore a,
      image_url = or_null (str_of (imageUrl a)),
      audio_base64 = or_null (str_of (audioBase64 a))\<rparr>"

text \<open>
  Modelled from the spec: what the store client, not among the sources, does with
  \<^verbatim>\<open>from('articles').upsert(row, { onConflict: 'url' }).select().single()\<close>: a row with
  this url is overwritten and keeps its id (conflict on URL updates the existing row),
  otherwise a row with a new id is inserted; the answer is the stored row.
\<close>

definition upsert_article :: "article_row \<Rightarrow> store \<Rightarrow> article_row reply \<times> store" where
  "upsert_article r s =
     (case call (UpsertArticle r) s of
        (Ok, s1) \<Rightarrow>
          (case article_rows s1 (row_url r) of
             Some old \<Rightarrow>
               (Data (r\<lparr>row_id := row_id old\<rparr>),
                s1\<lparr>article_rows := (article_rows s1)(row_url r \<mapsto> r\<lparr>row_id := row_id old\<rparr>)\<rparr>)
           | None \<Rightarrow>
               (Data (r\<lparr>row_id := assign_id s1 (serial s1)\<rparr>),
                s1\<lparr>article_rows :=
                     (article_rows s1)(row_url r \<mapsto> r\<lparr>row_id := assign_id s1 (serial s1)\<rparr>),
                   serial := Suc (serial s1)\<rparr>))
      | (Err, s1) \<Rightarrow> (Error Unavailable, s1)
      | (Throw, s1) \<Rightarrow> (Thrown, s1))"

text \<open>
  Modelled from the spec: the row that an upsert answered with data leaves in the relation
  and returns, as \<open>upsert_article\<close> has it.
\<close>

definition stored_row :: "article_row \<Rightarrow> store \<Rightarrow> article_row" where
  "stored_row r s =
     r\<lparr>row_id := (case article_rows s (row_url r) of
                    Some old \<Rightarrow> row_id old
                  | None \<Rightarrow> assign_id s (serial s))\<rparr>"

text \<open>
  The pushed object: \<^verbatim>\<open>{ ...article, id: data.id, category: data.category, audioBase64:
  data.audio_base_64 || data.audio_base64 }\<close>; the stored row has no column
  \<^verbatim>\<open>audio_base_64\<close>, so the audio is that of the column \<^verbatim>\<open>audio_base64\<close>, \<^verbatim>\<open>null\<close> or a
  string.
\<close>

definition saved_as :: "article \<Rightarrow> article_row \<Rightarrow> article" where
  "saved_as a d =
     a\<lparr>a_id := Value (row_id d), category := row_category d,
       audioBase64 := of_column (audio_base64 d)\<rparr>"

text \<open>The loop over \<^verbatim>\<open>uniqueInput\<close>; an error answer and a caught exception both push nothing.\<close>

fun save_each :: "string \<Rightarrow> article list \<Rightarrow> article list \<Rightarrow> store \<Rightarrow> article list \<times> store" where
  "save_each cleanCategory [] savedArticles s = (savedArticles, s)"
| "save_each cleanCategory (a # as) savedArticles s =
     (case upsert_article (row_of cleanCategory a) s of
        (Data d, s1) \<Rightarrow> save_each cleanCategory as (savedArticles @ [saved_as a d]) s1
      | (_, s1) \<Rightarrow> save_each cleanCategory as savedArticles s1)"

definition saveArticles ::
  "(string \<Rightarrow> URL option) \<Rightarrow> string \<Rightarrow> article list \<Rightarrow> store \<Rightarrow> article list \<times> store" where
  "saveArticles P categoryLabel as s =
     (if as = [] then ([], s)
      else save_each (trim (or_str categoryLabel ''Generale'')) (uniqueInput P as) [] s)"

text \<open>
  The words of the specification for the first step of \<^verbatim>\<open>save\<close>: deduplication by key,
  the first occurrence wins. It is compared with \<open>uniqueInput\<close> below.
\<close>

fun first_per_key :: "('a \<Rightarrow> 'k) \<Rightarrow> 'a list \<Rightarrow> 'a list" where
  "first_per_key key [] = []"
| "first_per_key key (x # xs) = x # filter (\<lambda>y. key y \<noteq> key x) (first_per_key key xs)"

text \<open>
  The articles of a list whose calls, sent one per article in order, are answered with
  data, given the pending answers.
\<close>

fun served :: "'a list \<Rightarrow> outcome list \<Rightarrow> 'a list" where
  "served [] os = []"
| "served (a # as) os =
     (if (case os of [] \<Rightarrow> Ok | x # _ \<Rightarrow> x) = Ok then a # served as (tl os) else served as (tl os))"

section \<open>The hook (useNewsApp.ts)\<close>




text \<open>
  Modelled from the spec: what the store client, not among the sources, does with
  \<^verbatim>\<open>from('articles').select('id').eq('url', u).maybeSingle()\<close>; the url is unique.
\<close>

definition select_article_id :: "string \<Rightarrow> store \<Rightarrow> string option reply \<times> store" where
  "select_article_id u s =
     (case call (SelectArticleByUrl u) s of
        (Ok, s1) \<Rightarrow> (Data (map_option row_id (article_rows s1 u)), s1)
      | (Err, s1) \<Rightarrow> (Error Unavailable, s1)
      | (Throw, s1) \<Rightarrow> (Thrown, s1))"

text \<open>\<^verbatim>\<open>data?.id\<close>, tested for truthiness.\<close>

definition data_id :: "string option reply \<Rightarrow> string option" where
  "data_id r = (case r of Data (Some i) \<Rightarrow> or_null (Some i) | _ \<Rightarrow> None)"

text \<open>
  The try block of \<^verbatim>\<open>ensureArticleSaved\<close>: \<^verbatim>\<open>saved[0].id || null\<close> when something was
  saved, \<^verbatim>\<open>null\<close> otherwise. \<^verbatim>\<open>saveArticles\<close> throws nothing.
\<close>

definition save_one :: "(string \<Rightarrow> URL option) \<Rightarrow> article \<Rightarrow> store \<Rightarrow> string option \<times> store" where
  "save_one P a s =
     (case saveArticles P (or_str (category a) ''Generale'') [a] s of
        ([], s1) \<Rightarrow> (None, s1)
      | (x # _, s1) \<Rightarrow> (or_null (str_of (a_id x)), s1))"

definition ensureArticleSaved ::
  "(string \<Rightarrow> URL option) \<Rightarrow> article \<Rightarrow> store \<Rightarrow> string option result \<times> store" where
  "ensureArticleSaved P a s =
     (if truthy (str_of (a_id a)) \<and> id_shape (the (str_of (a_id a)))
      then (Returned (str_of (a_id a)), s)
      else
        (case select_article_id (url a) s of
           (Thrown, s1) \<Rightarrow> (Raised, s1)
         | (r, s1) \<Rightarrow>
             (if truthy (data_id r) then (Returned (data_id r), s1)
              else (case save_one P a s1 of (i, s2) \<Rightarrow> (Returned i, s2)))))"

text \<open>
  The state of the hook that the gestures read or write. \<^verbatim>\<open>showToast\<close> sets the
  notification; the timer that clears it later is not modelled, and the messages are
  written without their closing emoji.
\<close>

record app =
  articles :: "article list"
  selectedArticle :: "article option"
  showLoginModal :: bool
  currentUser :: "user option"
  favoriteArticleIds :: "string set"
  notification :: "string option"

definition showToast :: "string \<Rightarrow> app \<Rightarrow> app" where
  "showToast msg st = st\<lparr>notification := Some msg\<rparr>"

text \<open>
  \<^verbatim>\<open>{ ...a, ...updated }\<close>: every key that \<open>updated\<close> has wins, also when it holds
  \<^verbatim>\<open>undefined\<close> or \<^verbatim>\<open>null\<close>; an optional key that \<open>updated\<close> does not have keeps what
  \<open>a\<close> has for it.
\<close>

definition over :: "'a optional \<Rightarrow> 'a optional \<Rightarrow> 'a optional" where
  "over old new = (case new of Absent \<Rightarrow> old | _ \<Rightarrow> new)"

definition spread :: "article \<Rightarrow> article \<Rightarrow> article" where
  "spread a updated =
     updated\<lparr>a_id := over (a_id a) (a_id updated),
             imageUrl := over (imageUrl a) (imageUrl updated),
             audioBase64 := over (audioBase64 a) (audioBase64 updated)\<rparr>"

text \<open>\<^verbatim>\<open>a.id === updated.id || a.url === updated.url\<close>, on what the reads give.\<close>

definition same_article :: "article \<Rightarrow> article \<Rightarrow> bool" where
  "same_article a updated \<longleftrightarrow>
     reading (a_id a) = reading (a_id updated) \<or> url a = url updated"

definition handleArticleUpdate :: "article \<Rightarrow> app \<Rightarrow> app" where
  "handleArticleUpdate updated st =
     st\<lparr>articles := map (\<lambda>a. if same_article a updated then spread a updated else a) (articles st),
        selectedArticle :=
          (case selectedArticle st of
             None \<Rightarrow> None
           | Some prev \<Rightarrow> if same_article prev updated then Some (spread prev updated) else Some prev)\<rparr>"

text \<open>
  The part of a vote gesture inside the try block: the toggle, then both counts (both
  reads are sent before either is awaited), then the broadcast and the toast. An exception
  is caught and logged.
\<close>

definition vote_and_refresh ::
  "(string \<Rightarrow> string \<Rightarrow> store \<Rightarrow> bool result \<times> store) \<Rightarrow> string \<Rightarrow> article \<Rightarrow> string \<Rightarrow> string \<Rightarrow>
   app \<Rightarrow> store \<Rightarrow> app \<times> store" where
  "vote_and_refresh toggle msg a targetId userId st s =
     (case toggle targetId userId s of
        (Raised, s1) \<Rightarrow> (st, s1)
      | (Returned _, s1) \<Rightarrow>
          (case getLikeCount targetId s1 of
             (l, s2) \<Rightarrow>
               (case getDislikeCount targetId s2 of
                  (d, s3) \<Rightarrow>
                    (case (l, d) of
                       (Returned nLike, Returned nDislike) \<Rightarrow>
                         (showToast msg
                            (handleArticleUpdate
                               (a\<lparr>a_id := Value targetId, likeCount := Count nLike,
                                  dislikeCount := Count nDislike\<rparr>)
                               st),
                          s3)
                     | _ \<Rightarrow> (st, s3)))))"

definition handleLike ::
  "(string \<Rightarrow> URL option) \<Rightarrow> article \<Rightarrow> app \<Rightarrow> store \<Rightarrow> unit result \<times> app \<times> store" where
  "handleLike P a st s =
     (case currentUser st of
        None \<Rightarrow> (Returned (), st\<lparr>showLoginModal := True\<rparr>, s)
      | Some u \<Rightarrow>
          (case ensureArticleSaved P a s of
             (Raised, s1) \<Rightarrow> (Raised, st, s1)
           | (Returned targetId, s1) \<Rightarrow>
               (if \<not> truthy targetId then (Returned (), st, s1)
                else
                  (case vote_and_refresh toggleLike ''Grazie per il tuo feedback positivo!''
                          a (the targetId) (u_id u) st s1 of
                     (st', s2) \<Rightarrow> (Returned (), st', s2)))))"

definition handleDislike ::
  "(string \<Rightarrow> URL option) \<Rightarrow> article \<Rightarrow> app \<Rightarrow> store \<Rightarrow> unit result \<times> app \<times> store" where
  "handleDislike P a st s =
     (case currentUser st of
        None \<Rightarrow> (Returned (), st\<lparr>showLoginModal := True\<rparr>, s)
      | Some u \<Rightarrow>
          (case ensureArticleSaved P a s of
             (Raised, s1) \<Rightarrow> (Raised, st, s1)
           | (Returned targetId, s1) \<Rightarrow>
               (if \<not> truthy targetId then (Returned (), st, s1)
                else
                  (case vote_and_refresh toggleDislike ''Feedback ricevuto.''
                          a (the targetId) (u_id u) st s1 of
                     (st', s2) \<Rightarrow> (Returned (), st', s2)))))"

definition handleToggleFavorite ::
  "(string \<Rightarrow> URL option) \<Rightarrow> article \<Rightarrow> app \<Rightarrow> store \<Rightarrow> unit result \<times> app \<times> store" where
  "handleToggleFavorite P a st s =
     (case currentUser st of
        None \<Rightarrow> (Returned (), st\<lparr>showLoginModal := True\<rparr>, s)
      | Some u \<Rightarrow>
          (case ensureArticleSaved P a s of
             (Raised, s1) \<Rightarrow> (Raised, st, s1)
           | (Returned targetId, s1) \<Rightarrow>
               (if \<not> truthy targetId then (Returned (), st, s1)
                else if the targetId \<in> favoriteArticleIds st then
                  (case removeFavorite (the targetId) (u_id u) s1 of
                     (_, s2) \<Rightarrow>
                       (Returned (),
                        showToast ''Rimosso dai preferiti''
                          (st\<lparr>favoriteArticleIds := favoriteArticleIds st - {the targetId}\<rparr>),
                        s2))
                else
                  (case addFavorite (the targetId) (u_id u) s1 of
                     (_, s2) \<Rightarrow>
                       (Returned (),
                        showToast ''Aggiunto ai preferiti!''
                          (st\<lparr>favoriteArticleIds := insert (the targetId) (favoriteArticleIds st)\<rparr>),
                        s2)))))"

section \<open>Example data\<close>

definition ex_uuid :: string where
  "ex_uuid = ''123e4567-e89b-12d3-a456-426614174000''"

definition ex_hyphens :: string where
  "ex_hyphens = ''------------------------------------''"

definition ex_store :: store where
  "ex_store =
     \<lparr>article_rows = Map.empty, likes = [], dislikes = [], favorites = [], comments = [],
      assign_id = (\<lambda>n. ex_uuid), serial = 0, pending = [], trace = []\<rparr>"

definition ex_article :: article where
  "ex_article =
     \<lparr>a_id = Absent, url = ''https://x.com/a/'', title = ''t'', summary = ''s'', source = ''x'',
      date = ''2024-01-01'', category = [], imageUrl = Absent, audioBase64 = Absent,
      sentimentScore = 1, likeCount = Count 5, dislikeCount = Count 2\<rparr>"

definition ex_user :: user where
  "ex_user = \<lparr>u_id = ''u1'', u_name = ''ann'', avatar = []\<rparr>"

definition ex_app :: app where
  "ex_app =
     \<lparr>articles = [ex_article], selectedArticle = None, showLoginModal = False,
      currentUser = None, favoriteArticleIds = {}, notification = None\<rparr>"

definition ex_fake_article :: article where
  "ex_fake_article = ex_article\<lparr>a_id := Value ex_hyphens\<rparr>"

definition ex_signed_in :: app where
  "ex_signed_in = ex_app\<lparr>currentUser := Some ex_user\<rparr>"

definition ex_comment :: comment_row where
  "ex_comment =
     \<lparr>comment_id = ''c1'', comment_article = ex_uuid, comment_user = ''u1'', username = ''ann'',
      comment_text = ''hello'', created_at = 0\<rparr>"

definition ex_comment_store :: store where
  "ex_comment_store = ex_store\<lparr>comments := [ex_comment]\<rparr>"

text \<open>The same store with a client that throws at the next call.\<close>

definition ex_comment_throwing :: store where
  "ex_comment_throwing = ex_comment_store\<lparr>pending := [Throw]\<rparr>"

text \<open>Stores whose fourth, respectively third, call is answered with an error.\<close>

definition ex_faulty :: store where
  "ex_faulty = ex_store\<lparr>pending := [Ok, Ok, Ok, Err]\<rparr>"

definition ex_faulty_insert :: store where
  "ex_faulty_insert = ex_store\<lparr>pending := [Ok, Ok, Err]\<rparr>"

definition ex_saved_article :: article where
  "ex_saved_article = ex_article\<lparr>a_id := Value ex_uuid\<rparr>"




definition ex_http_article :: article where
  "ex_http_article = ex_article\<lparr>url := ''http://x.com/a'', title := ''other''\<rparr>"

definition ex_no_url :: article where
  "ex_no_url = ex_article\<lparr>url := []\<rparr>"

definition ex_failing :: store where
  "ex_failing = ex_store\<lparr>pending := [Err]\<rparr>"


text \<open>A store that holds a row for the url of the example article.\<close>

definition ex_stored :: store where
  "ex_stored =
     ex_store\<lparr>article_rows :=
       [''https://x.com/a/'' \<mapsto> (row_of ''Generale'' ex_article)\<lparr>row_id := ex_uuid\<rparr>]\<rparr>"

definition ex_upsert_fails :: store where
  "ex_upsert_fails = ex_store\<lparr>pending := [Ok, Err]\<rparr>"

text \<open>The store that holds this row and gives the next new row another id.\<close>

definition ex_other_uuid :: string where
  "ex_other_uuid = ''123e4567-e89b-12d3-a456-426614174001''"

definition ex_stored_next :: store where
  "ex_stored_next = ex_stored\<lparr>assign_id := (\<lambda>n. ex_other_uuid)\<rparr>"

text \<open>The store that holds this row, with a client that throws at the next call.\<close>

definition ex_stored_throwing :: store where
  "ex_stored_throwing = ex_stored\<lparr>pending := [Throw]\<rparr>"

section \<open>Identifier shapes: facts\<close>

lemma ex_uuid_valid: "isValidUUID (Some ex_uuid)"
  by (simp add: ex_uuid_def isValidUUID_def hex_run_def is_hex_def)

lemma ex_hyphens_invalid: "\<not> isValidUUID (Some ex_hyphens)"
  by (simp add: ex_hyphens_def isValidUUID_def hex_run_def is_hex_def)

lemma ex_hyphens_shape: "id_shape ex_hyphens"
  by (simp add: ex_hyphens_def id_shape_def is_hex_def)

lemma short_invalid: "\<not> isValidUUID (Some ''abc'')"
  by (simp add: isValidUUID_def)

lemma hex_run_nth:
  assumes "hex_run i n s" and "i \<le> k" and "k < i + n" and "k < length s"
  shows "is_hex (s ! k)"
proof -
  have "k - i < length (take n (drop i s))"
    using assms by auto
  moreover have "take n (drop i s) ! (k - i) = s ! k"
    using assms by simp
  ultimately show ?thesis
    using assms(1) unfolding hex_run_def list_all_length by metis
qed

lemma uuid_id_shape:
  assumes "isValidUUID (Some s)"
  shows "id_shape s"
proof -
  from assms have len: "length s = 36"
    and h1: "hex_run 0 8 s" and d1: "s ! 8 = CHR ''-''"
    and h2: "hex_run 9 4 s" and d2: "s ! 13 = CHR ''-''"
    and h3: "hex_run 14 4 s" and d3: "s ! 18 = CHR ''-''"
    and h4: "hex_run 19 4 s" and d4: "s ! 23 = CHR ''-''"
    and h5: "hex_run 24 12 s"
    by (simp_all add: isValidUUID_def)
  have "is_hex (s ! k) \<or> s ! k = CHR ''-''" if k: "k < 36" for k
  proof -
    consider "k < 8" | "k = 8" | "9 \<le> k \<and> k < 13" | "k = 13" | "14 \<le> k \<and> k < 18"
      | "k = 18" | "19 \<le> k \<and> k < 23" | "k = 23" | "24 \<le> k \<and> k < 36"
      using k by linarith
    then show ?thesis
    proof cases
      case 1 then show ?thesis using hex_run_nth [OF h1, of k] len by simp
    next
      case 2 then show ?thesis using d1 by simp
    next
      case 3 then show ?thesis using hex_run_nth [OF h2, of k] len by simp
    next
      case 4 then show ?thesis using d2 by simp
    next
      case 5 then show ?thesis using hex_run_nth [OF h3, of k] len by simp
    next
      case 6 then show ?thesis using d3 by simp
    next
      case 7 then show ?thesis using hex_run_nth [OF h4, of k] len by simp
    next
      case 8 then show ?thesis using d4 by simp
    next
      case 9 then show ?thesis using hex_run_nth [OF h5, of k] len by simp
    qed
  qed
  then show ?thesis
    using len by (simp add: id_shape_def list_all_length)
qed

section \<open>Invalid identifiers reach no store call\<close>

text \<open>
  C6. For every article id that fails \<^verbatim>\<open>isValidUUID\<close> and every user id, \<^verbatim>\<open>toggleLike\<close>
  and \<^verbatim>\<open>toggleDislike\<close> return \<^verbatim>\<open>false\<close> and hand back the store as it was: no relation
  changes, no request is recorded in the trace, and no pending answer is used up.
\<close>

theorem toggle_invalid_id:
  assumes "\<not> isValidUUID (Some articleId)"
  shows "toggleLike articleId userId s = (Returned False, s) \<and>
         toggleDislike articleId userId s = (Returned False, s)"
  using assms by (simp add: toggleLike_def toggleDislike_def)

theorem toggle_invalid_id_witness:
  "\<not> isValidUUID (Some ''abc'') \<and>
   toggleLike ''abc'' ''u1'' ex_store = (Returned False, ex_store) \<and>
   toggleDislike ''abc'' ''u1'' ex_store = (Returned False, ex_store)"
  using toggle_invalid_id [OF short_invalid, of "''u1''" ex_store] short_invalid by simp

section \<open>Gestures without a signed-in user\<close>

text \<open>
  C8. When no user is signed in, each of \<^verbatim>\<open>handleLike\<close>, \<^verbatim>\<open>handleDislike\<close> and
  \<^verbatim>\<open>handleToggleFavorite\<close> only sets the login-modal flag: it returns normally, the store
  is handed back as it was (no request in the trace, so no identity resolution either),
  and the article list, the counts in it and the set of favorite ids are those of before.
\<close>

theorem gesture_without_user:
  assumes "currentUser st = None"
  shows "handleLike P a st s = (Returned (), st\<lparr>showLoginModal := True\<rparr>, s) \<and>
         handleDislike P a st s = (Returned (), st\<lparr>showLoginModal := True\<rparr>, s) \<and>
         handleToggleFavorite P a st s = (Returned (), st\<lparr>showLoginModal := True\<rparr>, s)"
  using assms by (simp add: handleLike_def handleDislike_def handleToggleFavorite_def)

lemma ex_app_no_user: "currentUser ex_app = None"
  by (simp add: ex_app_def)

theorem gesture_without_user_witness:
  "currentUser ex_app = None \<and>
   handleLike URL_examples ex_article ex_app ex_store =
     (Returned (), ex_app\<lparr>showLoginModal := True\<rparr>, ex_store) \<and>
   handleDislike URL_examples ex_article ex_app ex_store =
     (Returned (), ex_app\<lparr>showLoginModal := True\<rparr>, ex_store) \<and>
   handleToggleFavorite URL_examples ex_article ex_app ex_store =
     (Returned (), ex_app\<lparr>showLoginModal := True\<rparr>, ex_store)"
  using gesture_without_user [OF ex_app_no_user, of URL_examples ex_article ex_store] ex_app_no_user
  by simp

section \<open>Deleting a comment\<close>

lemma delete_comment_by_cases:
  "delete_comment_by c u s =
     (case answer s of
        Ok \<Rightarrow> (Data (), (advance (DeleteCommentBy c u) s)
                 \<lparr>comments := filter (\<lambda>r. \<not> (comment_id r = c \<and> comment_user r = u)) (comments s)\<rparr>)
      | Err \<Rightarrow> (Error Unavailable, advance (DeleteCommentBy c u) s)
      | Throw \<Rightarrow> (Thrown, advance (DeleteCommentBy c u) s))"
  by (simp add: delete_comment_by_def call_def advance_def split: outcome.splits)

text \<open>
  C9, amended. \<^verbatim>\<open>deleteComment\<close> removes exactly the rows whose id is the comment id and
  whose author is the caller, and only when the store answers the delete with data; every
  other row stays. When the caller is not the author of the comment, the relation of
  comments is left as it was. The function adds no error of its own: for author and
  non-author alike it returns normally unless the store client itself throws, and then it
  raises.
\<close>

theorem deleteComment_author_only:
  "comments (snd (deleteComment c u s)) =
     (if answer s = Ok
      then filter (\<lambda>r. \<not> (comment_id r = c \<and> comment_user r = u)) (comments s)
      else comments s) \<and>
   ((\<forall>r \<in> set (comments s). comment_id r = c \<longrightarrow> comment_user r \<noteq> u) \<longrightarrow>
      comments (snd (deleteComment c u s)) = comments s) \<and>
   fst (deleteComment c u s) = (if answer s = Throw then Raised else Returned ())"
proof -
  have keep: "filter (\<lambda>r. \<not> (comment_id r = c \<and> comment_user r = u)) (comments s) = comments s"
    if "\<forall>r \<in> set (comments s). comment_id r = c \<longrightarrow> comment_user r \<noteq> u"
    using that by (auto intro: filter_True)
  show ?thesis
    using keep
    by (cases "answer s") (auto simp: deleteComment_def delete_comment_by_cases advance_def)
qed

text \<open>
  The claim as stated fails when the store client throws: the function has no try block,
  so the call of a user who is not the author raises, although it leaves the comment in
  place.
\<close>

theorem deleteComment_author_only_counterexample:
  "comments ex_comment_throwing = [ex_comment] \<and>
   comment_id ex_comment = ''c1'' \<and> comment_user ex_comment = ''u1'' \<and>
   fst (deleteComment ''c1'' ''u2'' ex_comment_throwing) = Raised \<and>
   comments (snd (deleteComment ''c1'' ''u2'' ex_comment_throwing)) = [ex_comment]"
  by (simp add: deleteComment_def delete_comment_by_cases answer_def advance_def
      ex_comment_throwing_def ex_comment_store_def ex_store_def ex_comment_def)

theorem deleteComment_author_only_witness:
  "comments (snd (deleteComment ''c1'' ''u2'' ex_comment_store)) = [ex_comment] \<and>
   fst (deleteComment ''c1'' ''u2'' ex_comment_store) = Returned () \<and>
   comments (snd (deleteComment ''c1'' ''u1'' ex_comment_store)) = []"
  using deleteComment_author_only [of "''c1''" "''u2''" ex_comment_store]
    deleteComment_author_only [of "''c1''" "''u1''" ex_comment_store]
  by (simp add: ex_comment_store_def ex_store_def ex_comment_def answer_def)

section \<open>The two identifier checks\<close>

lemma id_shape_truthy: "id_shape j \<Longrightarrow> truthy (Some j)"
  by (auto simp: id_shape_def truthy_def)

lemma resolver_keeps_shaped_id:
  "a_id a = Value j \<Longrightarrow> id_shape j \<Longrightarrow> ensureArticleSaved P a s = (Returned (Some j), s)"
  by (simp add: ensureArticleSaved_def id_shape_truthy str_of_def)

lemma counts_invalid:
  "\<not> isValidUUID (Some j) \<Longrightarrow>
     getLikeCount j s = (Returned 0, s) \<and> getDislikeCount j s = (Returned 0, s)"
  by (simp add: getLikeCount_def getDislikeCount_def)

lemma toggles_invalid:
  "\<not> isValidUUID (Some j) \<Longrightarrow>
     toggleLike j u s = (Returned False, s) \<and> toggleDislike j u s = (Returned False, s)"
  by (simp add: toggleLike_def toggleDislike_def)

text \<open>
  C10. Every id that \<^verbatim>\<open>isValidUUID\<close> accepts passes the test of \<^verbatim>\<open>ensureArticleSaved\<close>
  (36 characters, each a hex digit or a hyphen), and some id passes that test without
  being a valid UUID. For every such id \<open>j\<close> and every article carrying it:
  \<^verbatim>\<open>ensureArticleSaved\<close> returns \<open>j\<close> and sends nothing to the store; \<^verbatim>\<open>toggleLike\<close> and
  \<^verbatim>\<open>toggleDislike\<close> return \<^verbatim>\<open>false\<close>, \<^verbatim>\<open>getLikeCount\<close> and \<^verbatim>\<open>getDislikeCount\<close> return 0, all
  without a store call; and a vote gesture of a signed-in user leaves the store untouched
  while it broadcasts the article with both counts set to 0 and shows its toast.
\<close>

theorem resolver_shape_weaker:
  "(isValidUUID (Some i) \<longrightarrow> id_shape i) \<and>
   (\<exists>j. id_shape j \<and> \<not> isValidUUID (Some j)) \<and>
   (id_shape j \<and> \<not> isValidUUID (Some j) \<and> a_id a = Value j \<longrightarrow>
      ensureArticleSaved P a s = (Returned (Some j), s) \<and>
      toggleLike j u s = (Returned False, s) \<and>
      toggleDislike j u s = (Returned False, s) \<and>
      getLikeCount j s = (Returned 0, s) \<and>
      getDislikeCount j s = (Returned 0, s) \<and>
      (currentUser st = Some usr \<longrightarrow>
         handleLike P a st s =
           (Returned (),
            showToast ''Grazie per il tuo feedback positivo!''
              (handleArticleUpdate
                 (a\<lparr>a_id := Value j, likeCount := Count 0, dislikeCount := Count 0\<rparr>) st),
            s) \<and>
         handleDislike P a st s =
           (Returned (),
            showToast ''Feedback ricevuto.''
              (handleArticleUpdate
                 (a\<lparr>a_id := Value j, likeCount := Count 0, dislikeCount := Count 0\<rparr>) st),
            s)))"
proof (intro conjI impI)
  show "id_shape i" if "isValidUUID (Some i)"
    using that by (rule uuid_id_shape)
  show "\<exists>j. id_shape j \<and> \<not> isValidUUID (Some j)"
    using ex_hyphens_shape ex_hyphens_invalid by blast
next
  assume h: "id_shape j \<and> \<not> isValidUUID (Some j) \<and> a_id a = Value j"
  then show "ensureArticleSaved P a s = (Returned (Some j), s)"
    by (simp add: resolver_keeps_shaped_id)
  from h show "toggleLike j u s = (Returned False, s)"
    and "toggleDislike j u s = (Returned False, s)"
    by (simp_all add: toggles_invalid)
  from h show "getLikeCount j s = (Returned 0, s)"
    and "getDislikeCount j s = (Returned 0, s)"
    by (simp_all add: counts_invalid)
  assume usr: "currentUser st = Some usr"
  from h usr show "handleLike P a st s =
      (Returned (),
       showToast ''Grazie per il tuo feedback positivo!''
         (handleArticleUpdate
                 (a\<lparr>a_id := Value j, likeCount := Count 0, dislikeCount := Count 0\<rparr>) st),
       s)"
    by (simp add: handleLike_def resolver_keeps_shaped_id id_shape_truthy vote_and_refresh_def
        toggles_invalid counts_invalid)
  from h usr show "handleDislike P a st s =
      (Returned (),
       showToast ''Feedback ricevuto.''
         (handleArticleUpdate
                 (a\<lparr>a_id := Value j, likeCount := Count 0, dislikeCount := Count 0\<rparr>) st),
       s)"
    by (simp add: handleDislike_def resolver_keeps_shaped_id id_shape_truthy vote_and_refresh_def
        toggles_invalid counts_invalid)
qed

lemma ex_fake_id: "a_id ex_fake_article = Value ex_hyphens"
  by (simp add: ex_fake_article_def)

lemma ex_signed_in_user: "currentUser ex_signed_in = Some ex_user"
  by (simp add: ex_signed_in_def)

theorem resolver_shape_weaker_witness:
  "isValidUUID (Some ex_uuid) \<and> id_shape ex_uuid \<and>
   id_shape ex_hyphens \<and> \<not> isValidUUID (Some ex_hyphens) \<and>
   ensureArticleSaved URL_examples ex_fake_article ex_store = (Returned (Some ex_hyphens), ex_store) \<and>
   toggleLike ex_hyphens ''u1'' ex_store = (Returned False, ex_store) \<and>
   toggleDislike ex_hyphens ''u1'' ex_store = (Returned False, ex_store) \<and>
   getLikeCount ex_hyphens ex_store = (Returned 0, ex_store) \<and>
   getDislikeCount ex_hyphens ex_store = (Returned 0, ex_store) \<and>
   snd (snd (handleLike URL_examples ex_fake_article ex_signed_in ex_store)) = ex_store \<and>
   map likeCount (articles ex_signed_in) = [Count 5] \<and>
   map likeCount
     (articles (fst (snd (handleLike URL_examples ex_fake_article ex_signed_in ex_store)))) =
     [Count 0]"
proof -
  note t = resolver_shape_weaker [of ex_uuid ex_hyphens ex_fake_article URL_examples ex_store
      "''u1''" ex_signed_in ex_user]
  have pre: "id_shape ex_hyphens \<and> \<not> isValidUUID (Some ex_hyphens) \<and>
      a_id ex_fake_article = Value ex_hyphens"
    using ex_hyphens_shape ex_hyphens_invalid ex_fake_id by simp
  have upd: "map likeCount
      (articles (showToast msg
         (handleArticleUpdate
            (ex_fake_article\<lparr>a_id := Value ex_hyphens, likeCount := Count 0,
                               dislikeCount := Count 0\<rparr>)
            ex_signed_in))) = [Count 0]" for msg
    by (simp add: showToast_def handleArticleUpdate_def ex_signed_in_def ex_app_def
        ex_fake_article_def ex_article_def same_article_def spread_def)
  have before: "map likeCount (articles ex_signed_in) = [Count 5]"
    by (simp add: ex_signed_in_def ex_app_def ex_article_def)
  show ?thesis
    using t pre ex_uuid_valid ex_signed_in_user upd before by simp
qed

section \<open>Votes on a store that answers\<close>

lemmas store_ops =
  delete_pair_def select_pair_def delete_by_id_def insert_pair_def count_for_def
  call_def answer_def advance_def set_rows_def rows_def

lemma serving_answer: "serving s \<Longrightarrow> answer s = Ok"
  by (cases "pending s") (auto simp: serving_def answer_def)

lemma serving_advance: "serving s \<Longrightarrow> serving (advance r s)"
  by (cases "pending s") (auto simp: serving_def advance_def)

lemma serving_set_rows: "serving (set_rows t rs s) = serving s"
  by (cases t) (simp_all add: serving_def set_rows_def)

lemma rows_advance: "rows t (advance r s) = rows t s"
  by (cases t) (simp_all add: rows_def advance_def)

lemma rows_set_rows: "rows t (set_rows t' rs s) = (if t = t' then rs else rows t s)"
  by (cases t; cases t') (simp_all add: rows_def set_rows_def)

lemma delete_pair_ok:
  "serving s \<Longrightarrow>
   delete_pair t a u s =
     (Data (), set_rows t (filter (\<lambda>r. \<not> of_pair a u r) (rows t s)) (advance (DeletePair t a u) s))"
  by (simp add: delete_pair_def call_def serving_answer rows_advance)

lemma select_pair_ok:
  "serving s \<Longrightarrow>
   select_pair t a u s =
     (case filter (of_pair a u) (rows t s) of
        [] \<Rightarrow> Data None | [r] \<Rightarrow> Data (Some r) | _ \<Rightarrow> Error Unavailable,
      advance (SelectPair t a u) s)"
  by (simp add: select_pair_def call_def serving_answer rows_advance split: list.splits)

lemma delete_by_id_ok:
  "serving s \<Longrightarrow>
   delete_by_id t i s =
     (Data (), set_rows t (filter (\<lambda>r. vote_id r \<noteq> i) (rows t s)) (advance (DeleteById t i) s))"
  by (simp add: delete_by_id_def call_def serving_answer rows_advance)

lemma insert_pair_ok:
  "serving s \<Longrightarrow>
   insert_pair t a u s =
     (if list_ex (of_pair a u) (rows t s) then (Error Conflict, advance (InsertPair t a u) s)
      else (Data (),
            set_rows t (rows t s @ [\<lparr>vote_id = fresh_id (rows t s), article_id = a, user_id = u\<rparr>])
              (advance (InsertPair t a u) s)))"
  by (simp add: insert_pair_def call_def serving_answer rows_advance)

lemmas serving_simps = serving_advance serving_set_rows rows_advance rows_set_rows

lemma list_ex_filter: "list_ex P xs \<longleftrightarrow> filter P xs \<noteq> []"
  by (induction xs) auto

lemma toggleLike_ok:
  assumes "serving s" and "isValidUUID (Some a)"
  shows "toggleLike a u s =
    (let s2 = advance (SelectPair Likes a u)
                (set_rows Dislikes (filter (\<lambda>r. \<not> of_pair a u r) (rows Dislikes s))
                   (advance (DeletePair Dislikes a u) s)) in
     case filter (of_pair a u) (rows Likes s) of
       [] \<Rightarrow> (Returned True,
               set_rows Likes
                 (rows Likes s @ [\<lparr>vote_id = fresh_id (rows Likes s), article_id = a, user_id = u\<rparr>])
                 (advance (InsertPair Likes a u) s2))
     | [r] \<Rightarrow> (Returned False,
                set_rows Likes (filter (\<lambda>x. vote_id x \<noteq> vote_id r) (rows Likes s))
                  (advance (DeleteById Likes (vote_id r)) s2))
     | _ \<Rightarrow> (Returned True, advance (InsertPair Likes a u) s2))"
  using assms
  by (simp add: toggleLike_def delete_pair_ok select_pair_ok delete_by_id_ok insert_pair_ok
      serving_simps list_ex_filter Let_def split: list.splits)

lemma toggleDislike_ok:
  assumes "serving s" and "isValidUUID (Some a)"
  shows "toggleDislike a u s =
    (let s2 = advance (SelectPair Dislikes a u)
                (set_rows Likes (filter (\<lambda>r. \<not> of_pair a u r) (rows Likes s))
                   (advance (DeletePair Likes a u) s)) in
     case filter (of_pair a u) (rows Dislikes s) of
       [] \<Rightarrow> (Returned True,
               set_rows Dislikes
                 (rows Dislikes s @
                    [\<lparr>vote_id = fresh_id (rows Dislikes s), article_id = a, user_id = u\<rparr>])
                 (advance (InsertPair Dislikes a u) s2))
     | [r] \<Rightarrow> (Returned False,
                set_rows Dislikes (filter (\<lambda>x. vote_id x \<noteq> vote_id r) (rows Dislikes s))
                  (advance (DeleteById Dislikes (vote_id r)) s2))
     | _ \<Rightarrow> (Returned True, advance (InsertPair Dislikes a u) s2))"
  using assms
  by (simp add: toggleDislike_def delete_pair_ok select_pair_ok delete_by_id_ok insert_pair_ok
      serving_simps list_ex_filter Let_def split: list.splits)


lemma has_like_rows: "has_like s a u \<longleftrightarrow> (\<exists>r \<in> set (rows Likes s). of_pair a u r)"
  by (simp add: has_like_def rows_def list_ex_iff)

lemma has_dislike_rows: "has_dislike s a u \<longleftrightarrow> (\<exists>r \<in> set (rows Dislikes s). of_pair a u r)"
  by (simp add: has_dislike_def rows_def list_ex_iff)


lemma toggleLike_exclusive:
  assumes srv: "serving s" and inv: "\<not> (has_like s a' u' \<and> has_dislike s a' u')"
  shows "serving (snd (toggleLike a u s)) \<and>
         \<not> (has_like (snd (toggleLike a u s)) a' u' \<and> has_dislike (snd (toggleLike a u s)) a' u')"
proof (cases "isValidUUID (Some a)")
  case False
  then show ?thesis using srv inv by (simp add: toggleLike_def)
next
  case True
  let ?s' = "snd (toggleLike a u s)"
  note ok = toggleLike_ok [OF srv True, of u]
  have srv': "serving ?s'"
    using srv by (simp add: ok Let_def serving_simps split: list.splits)
  have dis: "rows Dislikes ?s' = filter (\<lambda>r. \<not> of_pair a u r) (rows Dislikes s)"
    by (simp add: ok Let_def serving_simps split: list.splits)
  have lik: "r \<in> set (rows Likes ?s') \<Longrightarrow> r \<in> set (rows Likes s) \<or> of_pair a u r" for r
    by (auto simp: ok Let_def serving_simps of_pair_def split: list.splits)
  have "\<not> (has_like ?s' a' u' \<and> has_dislike ?s' a' u')"
  proof
    assume both: "has_like ?s' a' u' \<and> has_dislike ?s' a' u'"
    then obtain d where d: "d \<in> set (rows Dislikes s)" "\<not> of_pair a u d" "of_pair a' u' d"
      by (auto simp: has_dislike_rows dis)
    from both obtain l where l: "l \<in> set (rows Likes ?s')" "of_pair a' u' l"
      by (auto simp: has_like_rows)
    from d have "\<not> of_pair a u l" using l(2) by (auto simp: of_pair_def)
    with lik [OF l(1)] have "l \<in> set (rows Likes s)" by simp
    with l(2) d inv show False by (auto simp: has_like_rows has_dislike_rows)
  qed
  with srv' show ?thesis by simp
qed

lemma toggleDislike_exclusive:
  assumes srv: "serving s" and inv: "\<not> (has_like s a' u' \<and> has_dislike s a' u')"
  shows "serving (snd (toggleDislike a u s)) \<and>
         \<not> (has_like (snd (toggleDislike a u s)) a' u' \<and>
            has_dislike (snd (toggleDislike a u s)) a' u')"
proof (cases "isValidUUID (Some a)")
  case False
  then show ?thesis using srv inv by (simp add: toggleDislike_def)
next
  case True
  let ?s' = "snd (toggleDislike a u s)"
  note ok = toggleDislike_ok [OF srv True, of u]
  have srv': "serving ?s'"
    using srv by (simp add: ok Let_def serving_simps split: list.splits)
  have lik: "rows Likes ?s' = filter (\<lambda>r. \<not> of_pair a u r) (rows Likes s)"
    by (simp add: ok Let_def serving_simps split: list.splits)
  have dis: "r \<in> set (rows Dislikes ?s') \<Longrightarrow> r \<in> set (rows Dislikes s) \<or> of_pair a u r" for r
    by (auto simp: ok Let_def serving_simps of_pair_def split: list.splits)
  have "\<not> (has_like ?s' a' u' \<and> has_dislike ?s' a' u')"
  proof
    assume both: "has_like ?s' a' u' \<and> has_dislike ?s' a' u'"
    then obtain l where l: "l \<in> set (rows Likes s)" "\<not> of_pair a u l" "of_pair a' u' l"
      by (auto simp: has_like_rows lik)
    from both obtain d where d: "d \<in> set (rows Dislikes ?s')" "of_pair a' u' d"
      by (auto simp: has_dislike_rows)
    from l have "\<not> of_pair a u d" using d(2) by (auto simp: of_pair_def)
    with dis [OF d(1)] have "d \<in> set (rows Dislikes s)" by simp
    with d(2) l inv show False by (auto simp: has_like_rows has_dislike_rows)
  qed
  with srv' show ?thesis by simp
qed

lemma run_ops_exclusive:
  "serving s \<Longrightarrow> \<not> (has_like s a u \<and> has_dislike s a u) \<Longrightarrow>
   serving (run_ops ops s) \<and> \<not> (has_like (run_ops ops s) a u \<and> has_dislike (run_ops ops s) a u)"
proof (induction ops arbitrary: s)
  case Nil
  then show ?case by simp
next
  case (Cons x xs)
  have "serving (run_op x s) \<and> \<not> (has_like (run_op x s) a u \<and> has_dislike (run_op x s) a u)"
    using Cons.prems toggleLike_exclusive toggleDislike_exclusive by (cases x) simp_all
  then show ?case using Cons.IH [of "run_op x s"] by simp
qed

text \<open>
  C1, amended. As long as the store answers every call of the toggles with data, any
  sequence of \<^verbatim>\<open>toggleLike\<close> and \<^verbatim>\<open>toggleDislike\<close> calls (on any articles and users, one
  after the other), started in a state where the pair has neither vote, ends in a state
  where the pair does not have both a like row and a dislike row.
\<close>

theorem votes_exclusive_when_served:
  assumes "serving s" and "\<not> has_like s a u" and "\<not> has_dislike s a u"
  shows "\<not> (has_like (run_ops ops s) a u \<and> has_dislike (run_ops ops s) a u)"
  using run_ops_exclusive [of s a u ops] assms by simp


text \<open>
  The claim as stated fails when a call is answered with an error: \<^verbatim>\<open>toggleLike\<close> does
  not look at the answer to its delete of the dislike. Here the first three calls (those
  of \<^verbatim>\<open>toggleDislike\<close>) are served and the fourth (the delete of the dislike inside
  \<^verbatim>\<open>toggleLike\<close>) is answered with an error; the like is inserted all the same.
\<close>

theorem votes_exclusive_counterexample:
  "\<not> has_like ex_faulty ex_uuid ''u1'' \<and> \<not> has_dislike ex_faulty ex_uuid ''u1'' \<and>
   has_like (run_ops [Dislike ex_uuid ''u1'', Like ex_uuid ''u1''] ex_faulty) ex_uuid ''u1'' \<and>
   has_dislike (run_ops [Dislike ex_uuid ''u1'', Like ex_uuid ''u1''] ex_faulty) ex_uuid ''u1''"
  by (simp add: ex_faulty_def ex_store_def has_like_def has_dislike_def toggleLike_def
      toggleDislike_def ex_uuid_valid store_ops of_pair_def fresh_id_def)

lemma ex_store_serving: "serving ex_store"
  by (simp add: serving_def ex_store_def)

theorem votes_exclusive_when_served_witness:
  "serving ex_store \<and> \<not> has_like ex_store ex_uuid ''u1'' \<and> \<not> has_dislike ex_store ex_uuid ''u1'' \<and>
   \<not> (has_like (run_ops [Dislike ex_uuid ''u1'', Like ex_uuid ''u1''] ex_store) ex_uuid ''u1'' \<and>
      has_dislike (run_ops [Dislike ex_uuid ''u1'', Like ex_uuid ''u1''] ex_store) ex_uuid ''u1'') \<and>
   has_like (run_ops [Dislike ex_uuid ''u1'', Like ex_uuid ''u1''] ex_store) ex_uuid ''u1''"
proof -
  have a: "\<not> has_like ex_store ex_uuid ''u1''" and b: "\<not> has_dislike ex_store ex_uuid ''u1''"
    by (simp_all add: has_like_def has_dislike_def ex_store_def)
  have c: "has_like (run_ops [Dislike ex_uuid ''u1'', Like ex_uuid ''u1''] ex_store) ex_uuid ''u1''"
    by (simp add: ex_store_def has_like_def has_dislike_def toggleLike_def
      toggleDislike_def ex_uuid_valid store_ops of_pair_def fresh_id_def)
  show ?thesis
    using votes_exclusive_when_served [OF ex_store_serving a b,
        of "[Dislike ex_uuid ''u1'', Like ex_uuid ''u1'']"] ex_store_serving a b c
    by simp
qed


lemma count_ok:
  "serving s \<Longrightarrow> isValidUUID (Some a) \<Longrightarrow>
   getLikeCount a s = (Returned (length (filter (\<lambda>r. article_id r = a) (rows Likes s))),
                       advance (CountFor Likes a) s)"
  by (simp add: getLikeCount_def count_for_def call_def serving_answer rows_advance)

lemma no_pair_filters:
  "\<not> list_ex (of_pair a u) rs \<Longrightarrow>
   filter (of_pair a u) rs = [] \<and> filter (\<lambda>r. \<not> of_pair a u r) rs = rs"
  by (induction rs) auto

lemma vote_id_le_foldr: "r \<in> set rs \<Longrightarrow> vote_id r \<le> foldr max (map vote_id rs) 0"
  by (induction rs) auto

lemma drop_fresh: "filter (\<lambda>x. vote_id x \<noteq> fresh_id rs) rs = rs"
proof -
  have "vote_id r \<noteq> fresh_id rs" if "r \<in> set rs" for r
    using vote_id_le_foldr [OF that] by (simp add: fresh_id_def)
  then show ?thesis by (simp add: filter_id_conv)
qed

lemma toggleLike_fresh:
  assumes srv: "serving s" and ok: "isValidUUID (Some a)"
    and nl: "\<not> has_like s a u" and nd: "\<not> has_dislike s a u"
  shows "toggleLike a u s =
     (Returned True,
      s\<lparr>likes := likes s @ [\<lparr>vote_id = fresh_id (likes s), article_id = a, user_id = u\<rparr>],
        pending := drop 3 (pending s),
        trace := trace s @ [DeletePair Dislikes a u, SelectPair Likes a u, InsertPair Likes a u]\<rparr>)"
proof -
  have l: "filter (of_pair a u) (rows Likes s) = []"
    using nl no_pair_filters [of a u "likes s"] by (simp add: has_like_def rows_def)
  have d: "filter (\<lambda>r. \<not> of_pair a u r) (rows Dislikes s) = dislikes s"
    using nd no_pair_filters [of a u "dislikes s"] by (simp add: has_dislike_def rows_def)
  have t3: "tl (tl (tl xs)) = drop 3 xs" for xs :: "outcome list"
    by (simp add: drop_Suc numeral_3_eq_3 drop_tl)
  show ?thesis
    unfolding toggleLike_ok [OF srv ok] l d
    by (simp add: advance_def set_rows_def rows_def t3)
qed


lemma toggleLike_retract:
  assumes srv: "serving s" and ok: "isValidUUID (Some a)"
    and ls: "likes s = ls @ [\<lparr>vote_id = fresh_id ls, article_id = a, user_id = u\<rparr>]"
    and nl: "\<not> list_ex (of_pair a u) ls" and nd: "\<not> has_dislike s a u"
  shows "toggleLike a u s =
     (Returned False,
      s\<lparr>likes := ls,
        pending := drop 3 (pending s),
        trace := trace s @
          [DeletePair Dislikes a u, SelectPair Likes a u, DeleteById Likes (fresh_id ls)]\<rparr>)"
proof -
  have l: "filter (of_pair a u) (rows Likes s) =
      [\<lparr>vote_id = fresh_id ls, article_id = a, user_id = u\<rparr>]"
    using nl no_pair_filters [of a u ls] by (simp add: rows_def ls of_pair_def)
  have d: "filter (\<lambda>r. \<not> of_pair a u r) (rows Dislikes s) = dislikes s"
    using nd no_pair_filters [of a u "dislikes s"] by (simp add: has_dislike_def rows_def)
  have f: "filter (\<lambda>x. vote_id x \<noteq> fresh_id ls) (rows Likes s) = ls"
    by (simp add: rows_def ls drop_fresh)
  have t3: "tl (tl (tl xs)) = drop 3 xs" for xs :: "outcome list"
    by (simp add: drop_Suc numeral_3_eq_3 drop_tl)
  show ?thesis
    unfolding toggleLike_ok [OF srv ok] l d
    by (simp add: f) (simp add: advance_def set_rows_def rows_def t3)
qed

text \<open>
  C2, amended. For a valid article id and a pair with neither vote, as long as the store
  answers every call with data: the first \<^verbatim>\<open>toggleLike\<close> returns \<^verbatim>\<open>true\<close>, the second
  returns \<^verbatim>\<open>false\<close>, the store afterwards is the original one but for the six requests
  recorded and the six answers used up (every relation is as before), and \<^verbatim>\<open>getLikeCount\<close>
  returns what it returned before.
\<close>

theorem toggleLike_twice_when_served:
  assumes srv: "serving s" and ok: "isValidUUID (Some a)"
    and nl: "\<not> has_like s a u" and nd: "\<not> has_dislike s a u"
  shows "fst (toggleLike a u s) = Returned True \<and>
         fst (toggleLike a u (snd (toggleLike a u s))) = Returned False \<and>
         snd (toggleLike a u (snd (toggleLike a u s))) =
           s\<lparr>pending := drop 6 (pending s),
             trace := trace s @
               [DeletePair Dislikes a u, SelectPair Likes a u, InsertPair Likes a u,
                DeletePair Dislikes a u, SelectPair Likes a u,
                DeleteById Likes (fresh_id (likes s))]\<rparr> \<and>
         fst (getLikeCount a (snd (toggleLike a u (snd (toggleLike a u s))))) =
           fst (getLikeCount a s)"
proof -
  let ?s1 = "s\<lparr>likes := likes s @ [\<lparr>vote_id = fresh_id (likes s), article_id = a, user_id = u\<rparr>],
        pending := drop 3 (pending s),
        trace := trace s @ [DeletePair Dislikes a u, SelectPair Likes a u, InsertPair Likes a u]\<rparr>"
  let ?s2 = "s\<lparr>pending := drop 6 (pending s),
             trace := trace s @
               [DeletePair Dislikes a u, SelectPair Likes a u, InsertPair Likes a u,
                DeletePair Dislikes a u, SelectPair Likes a u,
                DeleteById Likes (fresh_id (likes s))]\<rparr>"
  have first: "toggleLike a u s = (Returned True, ?s1)"
    by (rule toggleLike_fresh [OF srv ok nl nd])
  have srv1: "serving ?s1"
    using srv by (auto simp: serving_def list_all_iff dest: in_set_dropD)
  have srv2: "serving ?s2"
    using srv by (auto simp: serving_def list_all_iff dest: in_set_dropD)
  have nd1: "\<not> has_dislike ?s1 a u"
    using nd by (simp add: has_dislike_def)
  have nl0: "\<not> list_ex (of_pair a u) (likes s)"
    using nl by (simp add: has_like_def)
  have second: "toggleLike a u ?s1 = (Returned False, ?s2)"
    using toggleLike_retract [OF srv1 ok _ nl0 nd1] by simp
  have "fst (getLikeCount a ?s2) = fst (getLikeCount a s)"
    by (simp add: count_ok [OF srv2 ok] count_ok [OF srv ok] rows_def)
  with first second show ?thesis by simp
qed

text \<open>
  The claim as stated fails when the insert is answered with an error: \<^verbatim>\<open>toggleLike\<close>
  logs it and returns \<^verbatim>\<open>true\<close>, no row is stored, and the second call returns \<^verbatim>\<open>true\<close>
  again.
\<close>

theorem toggleLike_twice_counterexample:
  "isValidUUID (Some ex_uuid) \<and>
   \<not> has_like ex_faulty_insert ex_uuid ''u1'' \<and> \<not> has_dislike ex_faulty_insert ex_uuid ''u1'' \<and>
   fst (toggleLike ex_uuid ''u1'' ex_faulty_insert) = Returned True \<and>
   fst (toggleLike ex_uuid ''u1'' (snd (toggleLike ex_uuid ''u1'' ex_faulty_insert))) = Returned True"
  by (simp add: ex_faulty_insert_def ex_store_def has_like_def has_dislike_def toggleLike_def
      ex_uuid_valid store_ops of_pair_def fresh_id_def)

theorem toggleLike_twice_when_served_witness:
  "serving ex_store \<and> isValidUUID (Some ex_uuid) \<and>
   \<not> has_like ex_store ex_uuid ''u1'' \<and> \<not> has_dislike ex_store ex_uuid ''u1'' \<and>
   fst (toggleLike ex_uuid ''u1'' ex_store) = Returned True \<and>
   fst (toggleLike ex_uuid ''u1'' (snd (toggleLike ex_uuid ''u1'' ex_store))) = Returned False \<and>
   likes (snd (toggleLike ex_uuid ''u1'' (snd (toggleLike ex_uuid ''u1'' ex_store)))) = [] \<and>
   fst (getLikeCount ex_uuid (snd (toggleLike ex_uuid ''u1'' (snd (toggleLike ex_uuid ''u1'' ex_store)))))
     = Returned 0"
proof -
  have a: "\<not> has_like ex_store ex_uuid ''u1''" and b: "\<not> has_dislike ex_store ex_uuid ''u1''"
    by (simp_all add: has_like_def has_dislike_def ex_store_def)
  have d: "likes ex_store = []"
    by (simp add: ex_store_def)
  have c: "fst (getLikeCount ex_uuid ex_store) = Returned 0"
    by (simp add: count_ok [OF ex_store_serving ex_uuid_valid] rows_def d)
  note t = toggleLike_twice_when_served [OF ex_store_serving ex_uuid_valid a b]
  have e: "likes (snd (toggleLike ex_uuid ''u1'' (snd (toggleLike ex_uuid ''u1'' ex_store)))) = []"
    using t [THEN conjunct2, THEN conjunct2, THEN conjunct1] d by simp
  have f: "fst (getLikeCount ex_uuid
      (snd (toggleLike ex_uuid ''u1'' (snd (toggleLike ex_uuid ''u1'' ex_store))))) = Returned 0"
    using t [THEN conjunct2, THEN conjunct2, THEN conjunct2] c by simp
  show ?thesis
    using t [THEN conjunct1] t [THEN conjunct2, THEN conjunct1] e f
      ex_store_serving ex_uuid_valid a b
    by blast
qed

section \<open>Keys of URLs\<close>








lemmas url_eval = normalizeUrl_def URL_examples_def toLowerCase_def lower_char_def strip_slash_def
  trim_def is_space_def capitals_def smalls_def



section \<open>Batch enrichment\<close>























section \<open>Saving a batch\<close>

lemma keys_first_per_key: "key ` set (first_per_key key xs) = key ` set xs"
proof (induction xs)
  case Nil
  then show ?case by simp
next
  case (Cons x xs)
  have "key ` {y \<in> set (first_per_key key xs). key y \<noteq> key x} \<union> {key x} =
      key ` set (first_per_key key xs) \<union> {key x}"
    by auto
  then show ?case using Cons by auto
qed

lemma distinct_first_per_key: "distinct (map key (first_per_key key xs))"
proof (induction xs)
  case Nil
  then show ?case by simp
next
  case (Cons x xs)
  then show ?case by (auto simp: distinct_map_filter)
qed

lemma filter_first_per_key:
  "filter (\<lambda>x. Q (key x)) (first_per_key key xs) = first_per_key key (filter (\<lambda>x. Q (key x)) xs)"
proof (induction xs)
  case Nil
  then show ?case by simp
next
  case (Cons x xs)
  show ?case
  proof (cases "Q (key x)")
    case True
    have "filter (\<lambda>y. Q (key y)) (filter (\<lambda>y. key y \<noteq> key x) (first_per_key key xs)) =
        filter (\<lambda>y. key y \<noteq> key x) (filter (\<lambda>y. Q (key y)) (first_per_key key xs))"
      by (simp add: conj_commute)
    then show ?thesis using True Cons by simp
  next
    case False
    have "filter (\<lambda>y. key y \<noteq> key x) (filter (\<lambda>y. Q (key y)) (first_per_key key xs)) =
        filter (\<lambda>y. Q (key y)) (first_per_key key xs)"
      using False by (auto intro: filter_cong)
    moreover have "filter (\<lambda>y. Q (key y)) (filter (\<lambda>y. key y \<noteq> key x) (first_per_key key xs)) =
        filter (\<lambda>y. key y \<noteq> key x) (filter (\<lambda>y. Q (key y)) (first_per_key key xs))"
      by (simp add: conj_commute)
    ultimately show ?thesis using False Cons by simp
  qed
qed

lemma uniqueInputMap_spec:
  "uniqueInputMap P as m =
     m @ map (\<lambda>a. (normalizeUrl P (url a), a))
           (first_per_key (\<lambda>a. normalizeUrl P (url a))
              (filter (\<lambda>a. url a \<noteq> [] \<and> normalizeUrl P (url a) \<notin> set (map fst m)) as))"
proof (induction as arbitrary: m)
  case Nil
  then show ?case by simp
next
  case (Cons a as)
  let ?key = "\<lambda>a. normalizeUrl P (url a)"
  show ?case
  proof (cases "url a \<noteq> [] \<and> ?key a \<notin> set (map fst m)")
    case False
    then show ?thesis using Cons [of m] by (auto simp: Let_def)
  next
    case True
    have "filter (\<lambda>y. ?key y \<noteq> ?key a)
            (first_per_key ?key (filter (\<lambda>x. url x \<noteq> [] \<and> ?key x \<notin> set (map fst m)) as)) =
          first_per_key ?key
            (filter (\<lambda>y. ?key y \<noteq> ?key a) (filter (\<lambda>x. url x \<noteq> [] \<and> ?key x \<notin> set (map fst m)) as))"
      by (rule filter_first_per_key [of "\<lambda>k. k \<noteq> ?key a" ?key])
    also have "filter (\<lambda>y. ?key y \<noteq> ?key a) (filter (\<lambda>x. url x \<noteq> [] \<and> ?key x \<notin> set (map fst m)) as) =
        filter (\<lambda>x. url x \<noteq> [] \<and> ?key x \<notin> set (map fst (m @ [(?key a, a)]))) as"
      by (auto intro: filter_cong)
    finally show ?thesis
      using True Cons [of "m @ [(?key a, a)]"] by (simp add: Let_def)
  qed
qed

lemma uniqueInput_spec:
  "uniqueInput P as =
     first_per_key (\<lambda>a. normalizeUrl P (url a)) (filter (\<lambda>a. url a \<noteq> []) as)"
  by (simp add: uniqueInput_def uniqueInputMap_spec comp_def)


lemma upsert_article_cases:
  "upsert_article r s =
     (if answer s = Ok
      then (Data (stored_row r s),
            (advance (UpsertArticle r) s)
              \<lparr>article_rows := (article_rows s)(row_url r \<mapsto> stored_row r s),
               serial := (if article_rows s (row_url r) = None then Suc (serial s) else serial s)\<rparr>)
      else (if answer s = Err then Error Unavailable else Thrown, advance (UpsertArticle r) s))"
  by (cases "answer s")
     (auto simp: upsert_article_def call_def stored_row_def advance_def split: option.splits)

lemma served_subset: "set (served as os) \<subseteq> set as"
  by (induction as arbitrary: os) auto

lemma save_each_trace:
  "trace (snd (save_each c as acc s)) = trace s @ map (\<lambda>a. UpsertArticle (row_of c a)) as \<and>
   pending (snd (save_each c as acc s)) = drop (length as) (pending s) \<and>
   likes (snd (save_each c as acc s)) = likes s \<and>
   dislikes (snd (save_each c as acc s)) = dislikes s \<and>
   favorites (snd (save_each c as acc s)) = favorites s \<and>
   comments (snd (save_each c as acc s)) = comments s"
proof (induction as arbitrary: acc s)
  case Nil
  then show ?case by simp
next
  case (Cons a as)
  show ?case
    by (cases "answer s = Ok")
       (simp_all add: upsert_article_cases Cons advance_def drop_Suc drop_tl)
qed

lemma save_each_rows_other:
  "u \<notin> url ` set (served as (pending s)) \<Longrightarrow>
   article_rows (snd (save_each c as acc s)) u = article_rows s u"
proof (induction as arbitrary: acc s)
  case Nil
  then show ?case by simp
next
  case (Cons a as)
  show ?case
  proof (cases "answer s = Ok")
    case True
    let ?s1 = "snd (upsert_article (row_of c a) s)"
    have p: "pending ?s1 = tl (pending s)"
      by (simp add: upsert_article_cases True advance_def)
    from Cons.prems True have u: "u \<noteq> url a" "u \<notin> url ` set (served as (tl (pending s)))"
      by (auto simp: answer_def)
    have "article_rows (snd (save_each c as (acc @ [saved_as a (stored_row (row_of c a) s)]) ?s1)) u =
        article_rows ?s1 u"
      using Cons.IH [of ?s1] u(2) p by simp
    also have "\<dots> = article_rows s u"
      using u(1) by (simp add: upsert_article_cases True advance_def row_of_def)
    finally show ?thesis
      by (simp add: upsert_article_cases True)
  next
    case False
    let ?s1 = "snd (upsert_article (row_of c a) s)"
    have p: "pending ?s1 = tl (pending s)" "article_rows ?s1 = article_rows s"
      by (simp_all add: upsert_article_cases False advance_def)
    from Cons.prems False have u: "u \<notin> url ` set (served as (tl (pending s)))"
      by (auto simp: answer_def)
    have "article_rows (snd (save_each c as acc ?s1)) u = article_rows ?s1 u"
      using Cons.IH [of ?s1] u p by simp
    then show ?thesis
      using p by (simp add: upsert_article_cases False)
  qed
qed


lemma stored_row_shape: "stored_row r s = r\<lparr>row_id := row_id (stored_row r s)\<rparr>"
  by (simp add: stored_row_def)

lemma save_each_result:
  assumes "distinct (map url as)"
  shows "fst (save_each c as acc s) =
           acc @ map (\<lambda>a. saved_as a (the (article_rows (snd (save_each c as acc s)) (url a))))
                   (served as (pending s)) \<and>
         (\<forall>a \<in> set (served as (pending s)).
            \<exists>r. article_rows (snd (save_each c as acc s)) (url a) = Some r \<and>
                r = (row_of c a)\<lparr>row_id := row_id r\<rparr>)"
  using assms
proof (induction as arbitrary: acc s)
  case Nil
  then show ?case by simp
next
  case (Cons a as)
  let ?s1 = "snd (upsert_article (row_of c a) s)"
  have p: "pending ?s1 = tl (pending s)"
    by (simp add: upsert_article_cases advance_def)
  from Cons.prems have d: "distinct (map url as)" and na: "url a \<notin> url ` set as"
    by simp_all
  show ?case
  proof (cases "answer s = Ok")
    case True
    let ?d = "stored_row (row_of c a) s"
    let ?acc = "acc @ [saved_as a ?d]"
    let ?s' = "snd (save_each c as ?acc ?s1)"
    have step: "save_each c (a # as) acc s = save_each c as ?acc ?s1"
      by (simp add: upsert_article_cases True)
    have sv: "served (a # as) (pending s) = a # served as (tl (pending s))"
      using True by (simp add: answer_def)
    have "url a \<notin> url ` set (served as (pending ?s1))"
      using na served_subset [of as "pending ?s1"] by blast
    then have "article_rows ?s' (url a) = article_rows ?s1 (url a)"
      by (rule save_each_rows_other)
    also have "\<dots> = Some ?d"
      by (simp add: upsert_article_cases True row_of_def)
    finally have here: "article_rows ?s' (url a) = Some ?d" .
    have shape: "?d = (row_of c a)\<lparr>row_id := row_id ?d\<rparr>"
      by (rule stored_row_shape)
    show ?thesis
      unfolding step sv
      using Cons.IH [OF d, of ?acc ?s1] here shape by (simp add: p)
  next
    case False
    have step: "save_each c (a # as) acc s = save_each c as acc ?s1"
      by (simp add: upsert_article_cases False)
    have sv: "served (a # as) (pending s) = served as (tl (pending s))"
      using False by (simp add: answer_def)
    show ?thesis
      unfolding step sv
      using Cons.IH [OF d, of acc ?s1] by (simp add: p)
  qed
qed

lemma distinct_url_of_keys: "distinct (map (\<lambda>a. f (url a)) as) \<Longrightarrow> distinct (map url as)"
  by (induction as) auto


text \<open>
  C4, amended. \<^verbatim>\<open>saveArticles\<close> leaves out the articles with an empty url and
  deduplicates the others by normalized URL, the first occurrence winning (\<open>U\<close>, with
  pairwise different keys, one for every key of those articles). It sends exactly one upsert per article of \<open>U\<close>, in order, and
  nothing else. It returns exactly the articles of \<open>U\<close> whose upsert was answered with
  data, in order, each with the id, the category and the audio of its stored row attached;
  the articles whose upsert was answered with an error or threw are left out. For each
  returned article the row stored under its url is the row built from it; the rows of all
  other urls and the other relations are as before.
\<close>

theorem saveArticles_batch:
  "U = uniqueInput P as \<and> c = trim (or_str categoryLabel ''Generale'') \<and>
   saved = fst (saveArticles P categoryLabel as s) \<and>
   s' = snd (saveArticles P categoryLabel as s) \<longrightarrow>
     U = first_per_key (\<lambda>a. normalizeUrl P (url a)) (filter (\<lambda>a. url a \<noteq> []) as) \<and>
     distinct (map (\<lambda>a. normalizeUrl P (url a)) U) \<and>
     (\<lambda>a. normalizeUrl P (url a)) ` set U =
       (\<lambda>a. normalizeUrl P (url a)) ` {a \<in> set as. url a \<noteq> []} \<and>
     trace s' = trace s @ map (\<lambda>a. UpsertArticle (row_of c a)) U \<and>
     saved = map (\<lambda>a. saved_as a (the (article_rows s' (url a)))) (served U (pending s)) \<and>
     (\<forall>a \<in> set (served U (pending s)).
        \<exists>r. article_rows s' (url a) = Some r \<and> r = (row_of c a)\<lparr>row_id := row_id r\<rparr>) \<and>
     (\<forall>u. u \<notin> url ` set (served U (pending s)) \<longrightarrow> article_rows s' u = article_rows s u) \<and>
     likes s' = likes s \<and> dislikes s' = dislikes s \<and> favorites s' = favorites s \<and>
     comments s' = comments s"
proof
  assume h: "U = uniqueInput P as \<and> c = trim (or_str categoryLabel ''Generale'') \<and>
   saved = fst (saveArticles P categoryLabel as s) \<and>
   s' = snd (saveArticles P categoryLabel as s)"
  let ?key = "\<lambda>a. normalizeUrl P (url a)"
  have spec: "U = first_per_key ?key (filter (\<lambda>a. url a \<noteq> []) as)"
    using h by (simp add: uniqueInput_spec)
  have dk: "distinct (map ?key U)"
    unfolding spec by (rule distinct_first_per_key)
  then have du: "distinct (map url U)"
    by (rule distinct_url_of_keys)
  have ks: "?key ` set U = ?key ` {a \<in> set as. url a \<noteq> []}"
    unfolding spec using keys_first_per_key [of ?key "filter (\<lambda>a. url a \<noteq> []) as"] by simp
  have run: "saveArticles P categoryLabel as s = save_each c U [] s"
  proof (cases "as = []")
    case True
    then show ?thesis using h by (simp add: saveArticles_def uniqueInput_def)
  next
    case False
    then show ?thesis using h by (simp add: saveArticles_def)
  qed
  have s': "s' = snd (save_each c U [] s)" and saved: "saved = fst (save_each c U [] s)"
    using h run by simp_all
  note tr = save_each_trace [of c U "[]" s, folded s']
  note res = save_each_result [OF du, of c "[]" s, folded s' saved]
  have other: "\<forall>u. u \<notin> url ` set (served U (pending s)) \<longrightarrow> article_rows s' u = article_rows s u"
    unfolding s' using save_each_rows_other by blast
  show "U = first_per_key ?key (filter (\<lambda>a. url a \<noteq> []) as) \<and>
     distinct (map ?key U) \<and>
     ?key ` set U = ?key ` {a \<in> set as. url a \<noteq> []} \<and>
     trace s' = trace s @ map (\<lambda>a. UpsertArticle (row_of c a)) U \<and>
     saved = map (\<lambda>a. saved_as a (the (article_rows s' (url a)))) (served U (pending s)) \<and>
     (\<forall>a \<in> set (served U (pending s)).
        \<exists>r. article_rows s' (url a) = Some r \<and> r = (row_of c a)\<lparr>row_id := row_id r\<rparr>) \<and>
     (\<forall>u. u \<notin> url ` set (served U (pending s)) \<longrightarrow> article_rows s' u = article_rows s u) \<and>
     likes s' = likes s \<and> dislikes s' = dislikes s \<and> favorites s' = favorites s \<and>
     comments s' = comments s"
    using spec dk ks tr res other by simp
qed

text \<open>
  The claim as stated fails for an article with an empty url (\<^verbatim>\<open>if (a.url)\<close>): the batch
  has one normalized key, the empty one, and no upsert is sent.
\<close>

theorem saveArticles_batch_counterexample:
  "remdups (map (\<lambda>a. normalizeUrl URL_examples (url a)) [ex_no_url]) = [[]] \<and>
   saveArticles URL_examples ''Generale'' [ex_no_url] ex_store = ([], ex_store)"
  by (simp add: ex_no_url_def saveArticles_def uniqueInput_def url_eval)

theorem saveArticles_batch_witness:
  "uniqueInput URL_examples [ex_article, ex_http_article, ex_no_url] = [ex_article] \<and>
   trace (snd (saveArticles URL_examples [] [ex_article, ex_http_article, ex_no_url] ex_store)) =
     [UpsertArticle (row_of ''Generale'' ex_article)] \<and>
   fst (saveArticles URL_examples [] [ex_article, ex_http_article, ex_no_url] ex_store) =
     [ex_article\<lparr>a_id := Value ex_uuid, category := ''Generale'', audioBase64 := Null\<rparr>] \<and>
   fst (saveArticles URL_examples [] [ex_article] ex_failing) = []"
proof -
  let ?as = "[ex_article, ex_http_article, ex_no_url]"
  let ?out = "saveArticles URL_examples [] ?as ex_store"
  let ?out2 = "saveArticles URL_examples [] [ex_article] ex_failing"
  note t = saveArticles_batch [of "uniqueInput URL_examples ?as" URL_examples ?as
      "trim (or_str [] ''Generale'')" "[]" "fst ?out" ex_store "snd ?out", THEN mp,
      OF conjI [OF refl conjI [OF refl conjI [OF refl refl]]]]
  note t2 = saveArticles_batch [of "uniqueInput URL_examples [ex_article]" URL_examples
      "[ex_article]" "trim (or_str [] ''Generale'')" "[]" "fst ?out2" ex_failing "snd ?out2",
      THEN mp, OF conjI [OF refl conjI [OF refl conjI [OF refl refl]]]]
  have urls: "url ex_article = ''https://x.com/a/''" "url ex_http_article = ''http://x.com/a''"
    "url ex_no_url = []"
    by (simp_all add: ex_article_def ex_http_article_def ex_no_url_def)
  have keys: "normalizeUrl URL_examples ''https://x.com/a/'' = ''x.com/a''"
    "normalizeUrl URL_examples ''http://x.com/a'' = ''x.com/a''"
    by (simp_all add: url_eval)
  have c: "trim (or_str [] ''Generale'') = ''Generale''"
    by (simp add: or_str_def trim_def is_space_def)
  have u: "uniqueInput URL_examples ?as = [ex_article]"
    unfolding t [THEN conjunct1] by (simp add: urls keys)
  have u2: "uniqueInput URL_examples [ex_article] = [ex_article]"
    unfolding t2 [THEN conjunct1] by (simp add: urls)
  have tr: "trace (snd ?out) = [UpsertArticle (row_of ''Generale'' ex_article)]"
    unfolding t [THEN conjunct2, THEN conjunct2, THEN conjunct2, THEN conjunct1] u c
    by (simp add: ex_store_def)
  have none: "fst ?out2 = []"
    unfolding t2 [THEN conjunct2, THEN conjunct2, THEN conjunct2, THEN conjunct2, THEN conjunct1] u2
    by (simp add: ex_failing_def ex_store_def)
  have saved: "fst ?out =
      [ex_article\<lparr>a_id := Value ex_uuid, category := ''Generale'', audioBase64 := Null\<rparr>]"
  proof -
    have "save_each ''Generale'' [ex_article] [] ex_store =
        ([saved_as ex_article (stored_row (row_of ''Generale'' ex_article) ex_store)],
         snd (upsert_article (row_of ''Generale'' ex_article) ex_store))"
      by (simp add: upsert_article_cases answer_def ex_store_def)
    moreover have "saved_as ex_article (stored_row (row_of ''Generale'' ex_article) ex_store) =
        ex_article\<lparr>a_id := Value ex_uuid, category := ''Generale'', audioBase64 := Null\<rparr>"
      by (simp add: saved_as_def stored_row_def row_of_def ex_store_def ex_article_def or_str_def
          or_null_def truthy_def str_of_def of_column_def)
    ultimately show ?thesis
      by (simp add: saveArticles_def u c)
  qed
  show ?thesis
    using u tr saved none by simp
qed

section \<open>Resolving the identity of an article\<close>

lemma select_article_id_cases:
  "select_article_id u s =
     (case answer s of
        Ok \<Rightarrow> Data (map_option row_id (article_rows s u))
      | Err \<Rightarrow> Error Unavailable
      | Throw \<Rightarrow> Thrown,
      advance (SelectArticleByUrl u) s)"
  by (simp add: select_article_id_def call_def advance_def split: outcome.splits)

lemma save_one_cases:
  "save_one P a s =
     (if url a = [] then (None, s)
      else if answer s = Ok
      then (or_null (Some (row_id (stored_row
                (row_of (trim (or_str (or_str (category a) ''Generale'') ''Generale'')) a) s))),
            snd (upsert_article
                (row_of (trim (or_str (or_str (category a) ''Generale'') ''Generale'')) a) s))
      else (None,
            advance (UpsertArticle
                (row_of (trim (or_str (or_str (category a) ''Generale'') ''Generale'')) a)) s))"
  by (simp add: save_one_def saveArticles_def uniqueInput_def upsert_article_cases saved_as_def
      str_of_def)

lemma ensure_cases:
  assumes "\<not> (truthy (str_of (a_id a)) \<and> id_shape (the (str_of (a_id a))))"
  shows "ensureArticleSaved P a s =
     (let s1 = advance (SelectArticleByUrl (url a)) s;
          found = (if answer s = Ok then or_null (map_option row_id (article_rows s (url a)))
                   else None)
      in if answer s = Throw then (Raised, s1)
         else if truthy found then (Returned found, s1)
         else (Returned (fst (save_one P a s1)), snd (save_one P a s1)))"
  using assms
  by (cases "answer s")
     (auto simp: ensureArticleSaved_def select_article_id_cases data_id_def Let_def or_null_def
        truthy_def split: option.splits prod.splits)

lemma or_str_twice: "or_str (or_str c d) d = or_str c d"
  by (simp add: or_str_def)

lemma answer_advance_rows:
  "article_rows (advance q s) = article_rows s" "assign_id (advance q s) = assign_id s"
  "serial (advance q s) = serial s" "trace (advance q s) = trace s @ [q]"
  by (simp_all add: advance_def)

text \<open>
  C3, amended. \<^verbatim>\<open>ensureArticleSaved\<close> returns the id of the article unchanged, with
  no store call, when the id is present and is a string of 36 characters, each a hex digit
  or a hyphen. For every other article it first looks up the rows whose url is, character
  for character, the url of the article; the normalized URL plays no part. When the
  lookup is answered with data and the store holds a row with this very url (and a
  non-empty id), it returns the id of that row; only the lookup is sent, so no row is
  created. When the lookup does not throw and no row has this very url, the article has a
  url and the upsert is answered with data, it returns the newly assigned id (null if
  that id is empty), and the store holds one new row for the url, built from the article
  with the category \<open>Generale\<close> when the article has none; the lookup and the upsert are
  the only requests, and rows with other urls, also those with the same normalized URL,
  stay. When the lookup does not throw, no row has this very url and the upsert is
  answered with an error or throws, or the article has no url, it returns null and the
  relation of articles is as before. When the lookup throws, the resolver raises.
\<close>

theorem ensureArticleSaved_steps:
  "(truthy (str_of (a_id a)) \<and> id_shape (the (str_of (a_id a))) \<longrightarrow>
      ensureArticleSaved P a s = (Returned (str_of (a_id a)), s)) \<and>
   (\<not> (truthy (str_of (a_id a)) \<and> id_shape (the (str_of (a_id a)))) \<and>
    s1 = advance (SelectArticleByUrl (url a)) s \<and>
    r = row_of (trim (or_str (category a) ''Generale'')) a \<longrightarrow>
      (answer s = Ok \<and> article_rows s (url a) = Some old \<and> row_id old \<noteq> [] \<longrightarrow>
         ensureArticleSaved P a s = (Returned (Some (row_id old)), s1)) \<and>
      (answer s \<noteq> Throw \<and> article_rows s (url a) = None \<and> url a \<noteq> [] \<and> answer s1 = Ok \<longrightarrow>
         fst (ensureArticleSaved P a s) = Returned (or_null (Some (assign_id s (serial s)))) \<and>
         article_rows (snd (ensureArticleSaved P a s)) =
           (article_rows s)(url a \<mapsto> r\<lparr>row_id := assign_id s (serial s)\<rparr>) \<and>
         row_category r = (if category a = [] then ''Generale'' else category a) \<and>
         trace (snd (ensureArticleSaved P a s)) =
           trace s @ [SelectArticleByUrl (url a), UpsertArticle r]) \<and>
      (answer s \<noteq> Throw \<and> article_rows s (url a) = None \<and> (url a = [] \<or> answer s1 \<noteq> Ok) \<longrightarrow>
         fst (ensureArticleSaved P a s) = Returned None \<and>
         article_rows (snd (ensureArticleSaved P a s)) = article_rows s) \<and>
      (answer s = Throw \<longrightarrow> ensureArticleSaved P a s = (Raised, s1)))"
proof (intro conjI impI)
  assume "truthy (str_of (a_id a)) \<and> id_shape (the (str_of (a_id a)))"
  then show "ensureArticleSaved P a s = (Returned (str_of (a_id a)), s)"
    by (simp add: ensureArticleSaved_def)
next
  assume h: "\<not> (truthy (str_of (a_id a)) \<and> id_shape (the (str_of (a_id a)))) \<and>
    s1 = advance (SelectArticleByUrl (url a)) s \<and>
    r = row_of (trim (or_str (category a) ''Generale'')) a"
  then have n: "\<not> (truthy (str_of (a_id a)) \<and> id_shape (the (str_of (a_id a))))"
    and s1: "s1 = advance (SelectArticleByUrl (url a)) s"
    and r: "r = row_of (trim (or_str (category a) ''Generale'')) a"
    by simp_all
  note e = ensure_cases [OF n, of P s, folded s1]
  note so = save_one_cases [of P a s1, unfolded or_str_twice, folded r]
  have ru: "row_url r = url a"
    by (simp add: r row_of_def)
  show "ensureArticleSaved P a s = (Returned (Some (row_id old)), s1)"
    if "answer s = Ok \<and> article_rows s (url a) = Some old \<and> row_id old \<noteq> []"
    using that by (simp add: e Let_def or_null_def truthy_def)
  {
    assume c: "answer s \<noteq> Throw \<and> article_rows s (url a) = None \<and> url a \<noteq> [] \<and> answer s1 = Ok"
    then have run: "ensureArticleSaved P a s =
        (Returned (or_null (Some (row_id (stored_row r s1)))), snd (upsert_article r s1))"
      by (simp add: e Let_def or_null_def truthy_def so)
    have nid: "row_id (stored_row r s1) = assign_id s (serial s)"
      using c by (simp add: stored_row_def ru s1 answer_advance_rows)
    show "fst (ensureArticleSaved P a s) = Returned (or_null (Some (assign_id s (serial s))))"
      by (simp add: run nid)
    show "article_rows (snd (ensureArticleSaved P a s)) =
        (article_rows s)(url a \<mapsto> r\<lparr>row_id := assign_id s (serial s)\<rparr>)"
      using c nid
      by (simp add: run upsert_article_cases ru stored_row_def)
         (simp add: s1 answer_advance_rows)
    show "row_category r = (if category a = [] then ''Generale'' else category a)"
      by (simp add: r row_of_def or_str_def trim_def is_space_def)
    show "trace (snd (ensureArticleSaved P a s)) =
        trace s @ [SelectArticleByUrl (url a), UpsertArticle r]"
      using c by (simp add: run upsert_article_cases) (simp add: s1 answer_advance_rows)
  }
  {
    assume c: "answer s \<noteq> Throw \<and> article_rows s (url a) = None \<and> (url a = [] \<or> answer s1 \<noteq> Ok)"
    then have run: "ensureArticleSaved P a s =
        (Returned None, if url a = [] then s1 else advance (UpsertArticle r) s1)"
      by (auto simp: e Let_def or_null_def truthy_def so)
    show "fst (ensureArticleSaved P a s) = Returned None"
      by (simp add: run)
    show "article_rows (snd (ensureArticleSaved P a s)) = article_rows s"
      by (simp add: run s1 answer_advance_rows)
  }
  show "ensureArticleSaved P a s = (Raised, s1)" if "answer s = Throw"
    using that by (simp add: e Let_def)
qed

lemma ex_article_unshaped:
  "\<not> (truthy (str_of (a_id ex_article)) \<and> id_shape (the (str_of (a_id ex_article))))"
  by (simp add: ex_article_def truthy_def str_of_def)

lemma ex_http_unshaped:
  "\<not> (truthy (str_of (a_id ex_http_article)) \<and> id_shape (the (str_of (a_id ex_http_article))))"
  by (simp add: ex_http_article_def ex_article_def truthy_def str_of_def)

text \<open>
  The claim as stated fails for a row with the same normalized URL and another url. The
  store holds a row for \<open>https://x.com/a/\<close>; the article without id has the url
  \<open>http://x.com/a\<close>, with the same key \<open>x.com/a\<close>. The lookup compares the urls as they
  are (\<^verbatim>\<open>eq('url', article.url)\<close>) and finds nothing, the upsert conflicts on the url
  column only, and so the resolver returns a new id and leaves two rows with the same
  normalized URL. The claim also fails for an article without id and with an empty url on
  a store that answers every call: \<^verbatim>\<open>saveArticles\<close> skips the article, nothing is
  persisted and the result is null. And it fails when the store client throws at the
  lookup, which is outside the try block: the store holds a row with the url of the
  article, and the resolver raises instead of returning the id of that row.
\<close>

theorem ensureArticleSaved_steps_counterexample:
  "a_id ex_http_article = Absent \<and> url ex_http_article = ''http://x.com/a'' \<and>
   normalizeUrl URL_examples ''http://x.com/a'' = ''x.com/a'' \<and>
   normalizeUrl URL_examples ''https://x.com/a/'' = ''x.com/a'' \<and>
   map_option row_id (article_rows ex_stored_next ''https://x.com/a/'') = Some ex_uuid \<and>
   ex_other_uuid \<noteq> ex_uuid \<and>
   fst (ensureArticleSaved URL_examples ex_http_article ex_stored_next) =
     Returned (Some ex_other_uuid) \<and>
   map_option row_id
     (article_rows (snd (ensureArticleSaved URL_examples ex_http_article ex_stored_next))
        ''https://x.com/a/'') = Some ex_uuid \<and>
   map_option row_id
     (article_rows (snd (ensureArticleSaved URL_examples ex_http_article ex_stored_next))
        ''http://x.com/a'') = Some ex_other_uuid \<and>
   a_id ex_no_url = Absent \<and> url ex_no_url = [] \<and>
   ensureArticleSaved URL_examples ex_no_url ex_store =
     (Returned None, advance (SelectArticleByUrl []) ex_store) \<and>
   a_id ex_article = Absent \<and> url ex_article = ''https://x.com/a/'' \<and>
   map_option row_id (article_rows ex_stored_throwing ''https://x.com/a/'') = Some ex_uuid \<and>
   fst (ensureArticleSaved URL_examples ex_article ex_stored_throwing) = Raised"
proof -
  have "answer ex_stored_throwing = Throw"
    by (simp add: answer_def ex_stored_throwing_def)
  then have raised: "fst (ensureArticleSaved URL_examples ex_article ex_stored_throwing) = Raised"
    by (simp add: ensure_cases [OF ex_article_unshaped] Let_def)
  have thrown:
    "map_option row_id (article_rows ex_stored_throwing ''https://x.com/a/'') = Some ex_uuid"
    "a_id ex_article = Absent" "url ex_article = ''https://x.com/a/''"
    by (simp_all add: ex_stored_throwing_def ex_stored_def ex_store_def ex_article_def)
  have nu: "\<not> (truthy (str_of (a_id ex_no_url)) \<and> id_shape (the (str_of (a_id ex_no_url))))"
    by (simp add: ex_no_url_def ex_article_def truthy_def str_of_def)
  have no_url: "ensureArticleSaved URL_examples ex_no_url ex_store =
      (Returned None, advance (SelectArticleByUrl []) ex_store)"
    by (simp add: ensure_cases [OF nu] Let_def save_one_cases)
       (simp add: answer_def ex_store_def ex_no_url_def or_null_def truthy_def)
  have keys: "normalizeUrl URL_examples ''http://x.com/a'' = ''x.com/a''"
    "normalizeUrl URL_examples ''https://x.com/a/'' = ''x.com/a''"
    by (simp_all add: url_eval capitals_def smalls_def)
  have ids: "ex_other_uuid \<noteq> ex_uuid" "ex_other_uuid \<noteq> []"
    by (simp_all add: ex_other_uuid_def ex_uuid_def)
  have u: "url ex_http_article = ''http://x.com/a''" "a_id ex_http_article = Absent"
    "url ex_no_url = []" "a_id ex_no_url = Absent"
    by (simp_all add: ex_http_article_def ex_no_url_def ex_article_def)
  have before: "article_rows ex_stored_next ''http://x.com/a'' = None"
    "map_option row_id (article_rows ex_stored_next ''https://x.com/a/'') = Some ex_uuid"
    "answer ex_stored_next = Ok"
    "answer (advance (SelectArticleByUrl ''http://x.com/a'') ex_stored_next) = Ok"
    "assign_id ex_stored_next = (\<lambda>n. ex_other_uuid)"
    by (simp_all add: ex_stored_next_def ex_stored_def ex_store_def answer_def advance_def)
  have run: "ensureArticleSaved URL_examples ex_http_article ex_stored_next =
      (Returned (Some ex_other_uuid),
       snd (save_one URL_examples ex_http_article
              (advance (SelectArticleByUrl ''http://x.com/a'') ex_stored_next)))"
    using ids(2)
    by (simp add: ensure_cases [OF ex_http_unshaped] Let_def u before)
       (simp add: save_one_cases u before stored_row_def row_of_def answer_advance_rows
          or_null_def truthy_def)
  have after: "article_rows (snd (save_one URL_examples ex_http_article
        (advance (SelectArticleByUrl ''http://x.com/a'') ex_stored_next))) =
      (article_rows ex_stored_next)(''http://x.com/a'' \<mapsto>
        stored_row (row_of (trim (or_str (or_str (category ex_http_article) ''Generale'') ''Generale''))
                      ex_http_article)
          (advance (SelectArticleByUrl ''http://x.com/a'') ex_stored_next))"
    by (simp add: save_one_cases u before upsert_article_cases)
       (simp add: row_of_def u answer_advance_rows)
  show ?thesis
    unfolding no_url run raised
    using keys ids(1) u before(2) thrown
    by (simp add: after)
       (simp add: stored_row_def row_of_def u before answer_advance_rows)
qed

theorem ensureArticleSaved_steps_witness:
  "ensureArticleSaved URL_examples ex_saved_article ex_store = (Returned (Some ex_uuid), ex_store) \<and>
   fst (ensureArticleSaved URL_examples ex_article ex_stored) = Returned (Some ex_uuid) \<and>
   article_rows (snd (ensureArticleSaved URL_examples ex_article ex_stored)) = article_rows ex_stored \<and>
   fst (ensureArticleSaved URL_examples ex_article ex_store) = Returned (Some ex_uuid) \<and>
   map_option row_category
     (article_rows (snd (ensureArticleSaved URL_examples ex_article ex_store)) ''https://x.com/a/'') =
     Some ''Generale'' \<and>
   fst (ensureArticleSaved URL_examples ex_article ex_upsert_fails) = Returned None \<and>
   article_rows (snd (ensureArticleSaved URL_examples ex_article ex_upsert_fails)) = Map.empty \<and>
   ensureArticleSaved URL_examples ex_article ex_stored_throwing =
     (Raised, advance (SelectArticleByUrl ''https://x.com/a/'') ex_stored_throwing)"
proof -
  let ?q = "SelectArticleByUrl (url ex_article)"
  let ?r = "row_of (trim (or_str (category ex_article) ''Generale'')) ex_article"
  have u: "ex_uuid \<noteq> []"
    by (simp add: ex_uuid_def)
  have shaped: "truthy (str_of (a_id ex_saved_article)) \<and>
      id_shape (the (str_of (a_id ex_saved_article)))"
    using uuid_id_shape [OF ex_uuid_valid] u
    by (simp add: ex_saved_article_def truthy_def str_of_def)
  have one: "ensureArticleSaved URL_examples ex_saved_article ex_store =
      (Returned (Some ex_uuid), ex_store)"
    using ensureArticleSaved_steps [of ex_saved_article URL_examples ex_store, THEN conjunct1,
        THEN mp, OF shaped]
    by (simp add: ex_saved_article_def str_of_def)
  have url: "url ex_article = ''https://x.com/a/''" "category ex_article = []"
    by (simp_all add: ex_article_def)
  note t2 = ensureArticleSaved_steps [of ex_article URL_examples ex_stored "advance ?q ex_stored" ?r
      "(row_of ''Generale'' ex_article)\<lparr>row_id := ex_uuid\<rparr>",
      THEN conjunct2, THEN mp, OF conjI [OF ex_article_unshaped conjI [OF refl refl]],
      THEN conjunct1]
  have two: "ensureArticleSaved URL_examples ex_article ex_stored =
      (Returned (Some ex_uuid), advance ?q ex_stored)"
    using t2 u by (simp add: answer_def ex_stored_def ex_store_def url)
  note t3 = ensureArticleSaved_steps [of ex_article URL_examples ex_store "advance ?q ex_store" ?r,
      THEN conjunct2, THEN mp, OF conjI [OF ex_article_unshaped conjI [OF refl refl]],
      THEN conjunct2, THEN conjunct1]
  have three: "fst (ensureArticleSaved URL_examples ex_article ex_store) = Returned (Some ex_uuid)"
    "article_rows (snd (ensureArticleSaved URL_examples ex_article ex_store)) =
       (article_rows ex_store)(url ex_article \<mapsto> ?r\<lparr>row_id := ex_uuid\<rparr>)"
    using t3 u
    by (simp_all add: answer_def advance_def ex_store_def url or_null_def truthy_def)
  note t4 = ensureArticleSaved_steps [of ex_article URL_examples ex_upsert_fails
      "advance ?q ex_upsert_fails" ?r,
      THEN conjunct2, THEN mp, OF conjI [OF ex_article_unshaped conjI [OF refl refl]],
      THEN conjunct2, THEN conjunct2, THEN conjunct1]
  have four: "fst (ensureArticleSaved URL_examples ex_article ex_upsert_fails) = Returned None"
    "article_rows (snd (ensureArticleSaved URL_examples ex_article ex_upsert_fails)) = Map.empty"
    using t4
    by (simp_all add: answer_def advance_def ex_upsert_fails_def ex_store_def url)
  note t5 = ensureArticleSaved_steps [of ex_article URL_examples ex_stored_throwing
      "advance ?q ex_stored_throwing" ?r,
      THEN conjunct2, THEN mp, OF conjI [OF ex_article_unshaped conjI [OF refl refl]],
      THEN conjunct2, THEN conjunct2, THEN conjunct2]
  have five: "ensureArticleSaved URL_examples ex_article ex_stored_throwing =
      (Raised, advance (SelectArticleByUrl ''https://x.com/a/'') ex_stored_throwing)"
    using t5
    by (simp add: answer_def ex_stored_throwing_def ex_stored_def ex_store_def url)
  show ?thesis
    unfolding one two three four five
    by (simp add: advance_def url row_of_def or_str_def trim_def is_space_def)
qed

end
